theory Spec2Isabelle
  imports Complex_Main "HOL-Library.Sublist" "HOL-Library.AList"
    "HOL-Library.Char_ord" "HOL-Library.List_Lexorder"
begin

section \<open>Rows of the parsed CSV\<close>

text \<open>
  Papa.parse with \<^verbatim>\<open>header: true\<close> yields one object per line whose
  properties are the header names and whose values are strings; a line with fewer cells
  than the header leaves the later properties undefined. \<^verbatim>\<open>App.jsx\<close> reads
  six of the columns. A property is modelled as \<open>string option\<close>, \<open>None\<close>
  being JavaScript's \<^verbatim>\<open>undefined\<close>.
\<close>

record row =
  YEAR :: "string option"
  MONTH :: "string option"
  ITEM_TYPE :: "string option"
  SUPPLIER :: "string option"
  RETAIL_SALES :: "string option"
  WAREHOUSE_SALES :: "string option"

definition MONTHS :: "string list" where
  "MONTHS = [''Jan'', ''Feb'', ''Mar'', ''Apr'', ''May'', ''Jun'',
             ''Jul'', ''Aug'', ''Sep'', ''Oct'', ''Nov'', ''Dec'']"

definition ITEM_TYPES :: "string list" where
  "ITEM_TYPES = [''BEER'', ''WINE'', ''LIQUOR'', ''KEGS'', ''NON-ALCOHOL'']"

text \<open>
  Truthiness of a row property, as \<^verbatim>\<open>&&\<close>, \<^verbatim>\<open>||\<close> and
  \<^verbatim>\<open>!\<close> see it: \<^verbatim>\<open>undefined\<close> and the empty string are falsy,
  every other string is truthy.
\<close>

fun truthy :: "string option \<Rightarrow> bool" where
  "truthy None = False"
| "truthy (Some s) = (s \<noteq> [])"

text \<open>\<^verbatim>\<open>Array.prototype.includes\<close> on a list of strings: strict equality with a member.\<close>

fun array_includes :: "string list \<Rightarrow> string option \<Rightarrow> bool" where
  "array_includes xs None = False"
| "array_includes xs (Some s) = (s \<in> set xs)"

subsection \<open>The loader (\<^verbatim>\<open>Papa.parse\<close> callbacks, App.jsx 58-74)\<close>

definition cleanData :: "row list \<Rightarrow> row list" where
  "cleanData results_data =
     filter (\<lambda>row. truthy (YEAR row) \<and> truthy (MONTH row) \<and> truthy (ITEM_TYPE row)
                    \<and> array_includes ITEM_TYPES (ITEM_TYPE row)) results_data"

text \<open>
  The two callbacks of the parse. \<open>complete\<close> stores the cleaned rows and ends the
  loading state; \<open>error\<close> only ends the loading state and leaves \<open>data\<close> as it was.
\<close>

record load_state =
  data :: "row list"
  loading :: bool

datatype parse_result = Complete "row list" | ParseError

fun on_parse :: "parse_result \<Rightarrow> load_state \<Rightarrow> load_state" where
  "on_parse (Complete results_data) s = s\<lparr>data := cleanData results_data, loading := False\<rparr>"
| "on_parse ParseError s = s\<lparr>loading := False\<rparr>"

subsection \<open>The filter (\<^verbatim>\<open>filteredData\<close>, App.jsx 163-170)\<close>

record selection =
  selectedType :: string
  selectedYear :: string
  selectedSupplier :: string

text \<open>
  The callback of \<^verbatim>\<open>data.filter\<close>, with its three early returns in the
  source's order. \<^verbatim>\<open>row.X !== selected\<close> compares a property that may be
  undefined with a string.
\<close>

definition keep_row :: "selection \<Rightarrow> row \<Rightarrow> bool" where
  "keep_row sel row =
     (if selectedType sel \<noteq> ''ALL'' \<and> ITEM_TYPE row \<noteq> Some (selectedType sel) then False
      else if selectedYear sel \<noteq> ''ALL'' \<and> YEAR row \<noteq> Some (selectedYear sel) then False
      else if selectedSupplier sel \<noteq> ''ALL'' \<and> SUPPLIER row \<noteq> Some (selectedSupplier sel)
        then False
      else True)"

definition filteredData :: "selection \<Rightarrow> row list \<Rightarrow> row list" where
  "filteredData sel dat = filter (keep_row sel) dat"

section \<open>JavaScript numbers and the two parsers\<close>

text \<open>
  A number is \<open>NaN\<close>, an infinity (\<open>Inf True\<close> is \<open>+Infinity\<close>) or a finite
  IEEE 754 double, which is written as the rational it denotes. The functions below build
  finite numbers only through \<open>round_double\<close>, so every finite number they return is
  a double. The sign of zero is not kept: the totals start at \<open>+0\<close>, and a sum whose
  operands are not both \<open>-0\<close> is never \<open>-0\<close>.
\<close>

datatype jsnum = NaN | Inf bool | Fin rat

definition pow2 :: "int \<Rightarrow> rat" where
  "pow2 e = (if 0 \<le> e then 2 ^ nat e else 1 / 2 ^ nat (- e))"

text \<open>
  \<open>2\<^sup>1\<^sup>0\<^sup>2\<^sup>4\<close>, the least magnitude that is no longer a finite double, written as a
  power of a power so that it is computed in few steps.
\<close>

definition two_to_1024 :: rat where
  "two_to_1024 = (2 ^ 32) ^ 32"

text \<open>The number of binary digits of a positive integer (0 for the others).\<close>

function bit_length :: "int \<Rightarrow> nat" where
  "bit_length n = (if n \<le> 0 then 0 else Suc (bit_length (n div 2)))"
  by pat_completeness auto
termination
  by (relation "measure nat") auto

declare bit_length.simps [simp del]

text \<open>
  The binary exponent of a positive rational \<open>a\<close>: the \<open>k\<close> with
  \<open>2\<^sup>k \<le> a < 2\<^sup>k\<^sup>+\<^sup>1\<close>.
\<close>

definition ilog2 :: "rat \<Rightarrow> int" where
  "ilog2 a =
     (if 1 \<le> a then int (bit_length \<lfloor>a\<rfloor>) - 1
      else - int (bit_length (\<lceil>1 / a\<rceil> - 1)))"

text \<open>Rounding to the nearest integer, a tie going to the even one.\<close>

definition round_half_even :: "rat \<Rightarrow> int" where
  "round_half_even s =
     (let f = \<lfloor>s\<rfloor>; d = s - of_int f
      in if d < 1 / 2 then f else if 1 / 2 < d then f + 1
         else if even f then f else f + 1)"

text \<open>
  The double nearest to a rational (round to nearest, ties to even): 53 binary digits,
  the unit in the last place never below \<open>2\<^sup>-\<^sup>1\<^sup>0\<^sup>7\<^sup>4\<close> (subnormal numbers), and an
  infinity when the rounded magnitude reaches \<open>2\<^sup>1\<^sup>0\<^sup>2\<^sup>4\<close>.
\<close>

definition round_double :: "rat \<Rightarrow> jsnum" where
  "round_double q =
     (if q = 0 then Fin 0
      else
        let a = \<bar>q\<bar>;
            e = max (- 1074) (ilog2 a - 52);
            r = of_int (round_half_even (a / pow2 e)) * pow2 e
        in if two_to_1024 \<le> r then Inf (0 < q) else Fin (if q < 0 then - r else r))"

text \<open>
  The sum of two numbers (\<^verbatim>\<open>+=\<close> on numbers). On the special values it follows
  IEEE 754. The sum of two doubles is the double nearest to their exact sum; adding 0
  returns the other operand as it is, which is what that rounding gives for a double.
\<close>

fun jsadd :: "jsnum \<Rightarrow> jsnum \<Rightarrow> jsnum" where
  "jsadd NaN y = NaN"
| "jsadd x NaN = NaN"
| "jsadd (Inf a) (Inf b) = (if a = b then Inf a else NaN)"
| "jsadd (Inf a) (Fin y) = Inf a"
| "jsadd (Fin x) (Inf b) = Inf b"
| "jsadd (Fin x) (Fin y) =
     (if y = 0 then Fin x else if x = 0 then Fin y else round_double (x + y))"

definition is_ws :: "char \<Rightarrow> bool" where
  "is_ws c = (of_char c \<in> {9, 10, 11, 12, 13, 32 :: nat})"

definition is_digit :: "char \<Rightarrow> bool" where
  "is_digit c = (c \<in> set ''0123456789'')"

definition is_hex_digit :: "char \<Rightarrow> bool" where
  "is_hex_digit c = (c \<in> set ''0123456789abcdefABCDEF'')"

definition digit_val :: "char \<Rightarrow> nat" where
  "digit_val c =
     (if is_digit c then of_char c - 48
      else if c \<in> set ''abcdef'' then of_char c - 87
      else of_char c - 55)"

definition digits_val :: "nat \<Rightarrow> string \<Rightarrow> int" where
  "digits_val radix ds = foldl (\<lambda>n c. int radix * n + int (digit_val c)) 0 ds"

text \<open>An optional sign in front of a numeral: whether it is negative, and the rest.\<close>

fun strip_sign :: "string \<Rightarrow> bool \<times> string" where
  "strip_sign [] = (False, [])"
| "strip_sign (c # cs) =
     (if c = CHR ''-'' then (True, cs) else if c = CHR ''+'' then (False, cs)
      else (False, c # cs))"

text \<open>
  The exponent part of a decimal literal, \<^verbatim>\<open>e\<close> or \<^verbatim>\<open>E\<close>, an
  optional sign and at least one digit; 0 when the text does not start with one.
\<close>

definition exponent_part :: "string \<Rightarrow> int" where
  "exponent_part s =
     (case s of
        [] \<Rightarrow> 0
      | c # cs \<Rightarrow>
          if c = CHR ''e'' \<or> c = CHR ''E'' then
            (let (neg, r) = strip_sign cs; ds = takeWhile is_digit r
             in if ds = [] then 0
                else if neg then - digits_val 10 ds else digits_val 10 ds)
          else 0)"

definition pow10 :: "int \<Rightarrow> rat" where
  "pow10 e = (if 0 \<le> e then 10 ^ nat e else 1 / 10 ^ nat (- e))"

text \<open>
  \<^verbatim>\<open>parseFloat\<close> on a string (ECMAScript 19.2.4): leading white space is
  skipped, the longest prefix that is a \<open>StrDecimalLiteral\<close> is read, and the result
  is \<open>NaN\<close> when there is none, and otherwise the double nearest to the decimal value
  of that prefix. Strings are ASCII here, so the white space is the six ASCII white space
  characters.
\<close>

definition parseFloat :: "string \<Rightarrow> jsnum" where
  "parseFloat s =
     (let (neg, u) = strip_sign (dropWhile is_ws s) in
      if take 8 u = ''Infinity'' then Inf (\<not> neg)
      else
        let ip = takeWhile is_digit u;
            r1 = dropWhile is_digit u;
            (fp, r2) = (case r1 of
                          [] \<Rightarrow> ([], r1)
                        | c # cs \<Rightarrow>
                            if c = CHR ''.''
                            then (takeWhile is_digit cs, dropWhile is_digit cs)
                            else ([], r1))
        in if ip = [] \<and> fp = [] then NaN
           else
             let m = of_int (digits_val 10 (ip @ fp)) * pow10 (exponent_part r2 - int (length fp))
             in round_double (if neg then - m else m))"

text \<open>
  \<^verbatim>\<open>parseInt\<close> with no radix (ECMAScript 19.2.5): white space, a sign, a
  \<^verbatim>\<open>0x\<close> prefix selecting radix 16, then the longest run of digits; \<open>None\<close>
  is \<open>NaN\<close>. The integer is kept as it is read: the code uses it only as an index
  into \<open>MONTHS\<close>, and rounding to a double moves no integer into or out of 1 to 12.
\<close>

definition parseInt :: "string \<Rightarrow> int option" where
  "parseInt s =
     (let (neg, u) = strip_sign (dropWhile is_ws s);
          hex = (take 2 u = ''0x'' \<or> take 2 u = ''0X'');
          ds = (if hex then takeWhile is_hex_digit (drop 2 u) else takeWhile is_digit u);
          n = digits_val (if hex then 16 else 10) ds
      in if ds = [] then None else Some (if neg then - n else n))"

text \<open>
  \<^verbatim>\<open>parseFloat(row['RETAIL SALES'] || 0)\<close>: a falsy property is replaced by
  the number 0, which \<^verbatim>\<open>parseFloat\<close> converts to the string \<^verbatim>\<open>"0"\<close>
  before parsing.
\<close>

definition salesNum :: "string option \<Rightarrow> jsnum" where
  "salesNum field =
     (case field of
        None \<Rightarrow> parseFloat ''0''
      | Some s \<Rightarrow> if s \<noteq> [] then parseFloat s else parseFloat ''0'')"

section \<open>The aggregates\<close>

text \<open>
  An object used as a dictionary (\<^verbatim>\<open>const aggregated = {}\<close>) is an association
  list in insertion order, which is the order \<^verbatim>\<open>Object.entries\<close>,
  \<^verbatim>\<open>Object.keys\<close> and \<^verbatim>\<open>Object.values\<close> enumerate string keys that
  are not array indices. \<open>AList.update\<close> replaces the value of a key in place and
  appends a new key at the end, as an assignment to a property does. The keys below are
  \<^verbatim>\<open>YEAR-MM\<close> strings and item types of cleaned rows, none of which is an
  array index or a property of \<^verbatim>\<open>Object.prototype\<close>.
\<close>

datatype js_error = TypeError

text \<open>A value inside a template literal: \<^verbatim>\<open>undefined\<close> prints as its name.\<close>

definition template_str :: "string option \<Rightarrow> string" where
  "template_str v = (case v of None \<Rightarrow> ''undefined'' | Some s \<Rightarrow> s)"

text \<open>\<^verbatim>\<open>s.padStart(2, '0')\<close>.\<close>

definition padStart2 :: "string \<Rightarrow> string" where
  "padStart2 s = replicate (2 - length s) (CHR ''0'') @ s"

subsection \<open>Monthly (\<^verbatim>\<open>monthlyData\<close>, App.jsx 173-195)\<close>

record bucket =
  retail :: jsnum
  warehouse :: jsnum
  count :: nat

text \<open>
  The key of a row. \<^verbatim>\<open>row.MONTH.padStart\<close> throws a TypeError on a row without
  a MONTH property.
\<close>

definition row_key :: "row \<Rightarrow> js_error + string" where
  "row_key row =
     (case MONTH row of
        None \<Rightarrow> Inl TypeError
      | Some m \<Rightarrow> Inr (template_str (YEAR row) @ ''-'' @ padStart2 m))"

definition add_to_bucket :: "bucket \<Rightarrow> row \<Rightarrow> bucket" where
  "add_to_bucket b row =
     b\<lparr>retail := jsadd (retail b) (salesNum (RETAIL_SALES row)),
       warehouse := jsadd (warehouse b) (salesNum (WAREHOUSE_SALES row)),
       count := count b + 1\<rparr>"

text \<open>
  One turn of the \<^verbatim>\<open>forEach\<close>: a key not yet in \<open>aggregated\<close> gets a fresh
  bucket (a bucket is an object, so \<^verbatim>\<open>!aggregated[key]\<close> holds exactly for a
  missing key), then the three fields are added to.
\<close>

definition monthly_step :: "(string \<times> bucket) list \<Rightarrow> row \<Rightarrow> js_error + (string \<times> bucket) list" where
  "monthly_step aggregated row =
     (case row_key row of
        Inl e \<Rightarrow> Inl e
      | Inr key \<Rightarrow>
          (let b = (case map_of aggregated key of
                      None \<Rightarrow> \<lparr>retail = Fin 0, warehouse = Fin 0, count = 0\<rparr>
                    | Some b0 \<Rightarrow> b0)
           in Inr (AList.update key (add_to_bucket b row) aggregated)))"

fun monthly_loop :: "(string \<times> bucket) list \<Rightarrow> row list \<Rightarrow> js_error + (string \<times> bucket) list" where
  "monthly_loop aggregated [] = Inr aggregated"
| "monthly_loop aggregated (row # rows) =
     (case monthly_step aggregated row of
        Inl e \<Rightarrow> Inl e
      | Inr aggregated' \<Rightarrow> monthly_loop aggregated' rows)"

text \<open>
  \<^verbatim>\<open>Array.prototype.sort\<close> with a comparator: for a consistent comparator every
  conforming implementation returns the one stable sorted arrangement, computed here by
  insertion from the right. The comparator is \<^verbatim>\<open>String.prototype.localeCompare\<close>
  on the keys, whose result depends on the host's collation: it is a parameter.
\<close>

fun insert_entry :: "(string \<Rightarrow> string \<Rightarrow> int) \<Rightarrow> string \<times> 'v \<Rightarrow> (string \<times> 'v) list \<Rightarrow> (string \<times> 'v) list" where
  "insert_entry cmp a [] = [a]"
| "insert_entry cmp a (b # bs) =
     (if cmp (fst a) (fst b) \<le> 0 then a # b # bs else b # insert_entry cmp a bs)"

definition sort_entries :: "(string \<Rightarrow> string \<Rightarrow> int) \<Rightarrow> (string \<times> 'v) list \<Rightarrow> (string \<times> 'v) list" where
  "sort_entries cmp xs = foldr (insert_entry cmp) xs []"

text \<open>\<^verbatim>\<open>key.split('-')\<close>.\<close>

fun split_on :: "char \<Rightarrow> string \<Rightarrow> string list" where
  "split_on sep [] = [[]]"
| "split_on sep (c # cs) =
     (if c = sep then [] # split_on sep cs
      else (case split_on sep cs of [] \<Rightarrow> [[c]] | p # ps \<Rightarrow> (c # p) # ps))"

text \<open>
  \<^verbatim>\<open>MONTHS[n - 1]\<close> for the result \<open>n\<close> of \<^verbatim>\<open>parseInt\<close>: undefined
  for \<open>NaN\<close> and outside the array.
\<close>

definition months_at :: "int option \<Rightarrow> string option" where
  "months_at n =
     (case n of
        None \<Rightarrow> None
      | Some i \<Rightarrow> if 1 \<le> i \<and> i \<le> 12 then Some (MONTHS ! nat (i - 1)) else None)"

text \<open>
  The label of a key: \<^verbatim>\<open>const [year, month] = key.split('-')\<close> takes the first
  two pieces, and \<^verbatim>\<open>parseInt(undefined)\<close> is \<open>NaN\<close>.
\<close>

definition label_of_key :: "string \<Rightarrow> string" where
  "label_of_key key =
     (let parts = split_on (CHR ''-'') key;
          year = (case parts of [] \<Rightarrow> None | y # _ \<Rightarrow> Some y);
          month = (case parts of _ # m # _ \<Rightarrow> Some m | _ \<Rightarrow> None)
      in template_str (months_at (case month of None \<Rightarrow> None | Some m \<Rightarrow> parseInt m))
         @ '' '' @ template_str year)"

record monthly =
  m_labels :: "string list"
  m_retail :: "jsnum list"
  m_warehouse :: "jsnum list"

text \<open>The local \<^verbatim>\<open>sorted\<close> of the source, and the value of the memo.\<close>

definition monthly_sorted :: "(string \<Rightarrow> string \<Rightarrow> int) \<Rightarrow> row list \<Rightarrow> js_error + (string \<times> bucket) list" where
  "monthly_sorted localeCompare filtered =
     (case monthly_loop [] filtered of
        Inl e \<Rightarrow> Inl e
      | Inr aggregated \<Rightarrow> Inr (sort_entries localeCompare aggregated))"

definition monthlyData :: "(string \<Rightarrow> string \<Rightarrow> int) \<Rightarrow> row list \<Rightarrow> js_error + monthly" where
  "monthlyData localeCompare filtered =
     (case monthly_sorted localeCompare filtered of
        Inl e \<Rightarrow> Inl e
      | Inr sorted_entries \<Rightarrow>
          Inr \<lparr>m_labels = map (\<lambda>(key, val). label_of_key key) sorted_entries,
               m_retail = map (\<lambda>(key, val). retail val) sorted_entries,
               m_warehouse = map (\<lambda>(key, val). warehouse val) sorted_entries\<rparr>)"

subsection \<open>By item type (\<^verbatim>\<open>typeData\<close>, App.jsx 198-213)\<close>

text \<open>
  \<^verbatim>\<open>!aggregated[type]\<close> on a number: true for a missing key, for 0 and for
  \<open>NaN\<close>.
\<close>

definition falsy_entry :: "jsnum option \<Rightarrow> bool" where
  "falsy_entry v = (case v of None \<Rightarrow> True | Some x \<Rightarrow> x = NaN \<or> x = Fin 0)"

definition type_step :: "(string \<times> jsnum) list \<Rightarrow> row \<Rightarrow> (string \<times> jsnum) list" where
  "type_step aggregated row =
     (let type = template_str (ITEM_TYPE row);
          cur = (if falsy_entry (map_of aggregated type) then Fin 0
                 else (case map_of aggregated type of None \<Rightarrow> Fin 0 | Some x \<Rightarrow> x))
      in AList.update type
           (jsadd cur (jsadd (salesNum (RETAIL_SALES row)) (salesNum (WAREHOUSE_SALES row))))
           aggregated)"

record by_type =
  t_labels :: "string list"
  t_values :: "jsnum list"

definition typeData :: "row list \<Rightarrow> by_type" where
  "typeData filtered =
     (let aggregated = foldl type_step [] filtered
      in \<lparr>t_labels = map fst aggregated, t_values = map snd aggregated\<rparr>)"

subsection \<open>Summary (\<^verbatim>\<open>stats\<close>, App.jsx 216-231)\<close>

text \<open>
  The totals are kept as numbers: \<^verbatim>\<open>toLocaleString\<close>, which only formats them
  for display, is left out. The one \<^verbatim>\<open>forEach\<close> adds to two accumulators
  that do not depend on each other, so each is a fold of its own.
\<close>

record summary =
  totalRecords :: nat
  totalRetail :: jsnum
  totalWarehouse :: jsnum
  totalSales :: jsnum

definition stats :: "row list \<Rightarrow> summary" where
  "stats filtered =
     (let totalRetail = foldl (\<lambda>t row. jsadd t (salesNum (RETAIL_SALES row))) (Fin 0) filtered;
          totalWarehouse = foldl (\<lambda>t row. jsadd t (salesNum (WAREHOUSE_SALES row))) (Fin 0) filtered
      in \<lparr>totalRecords = length filtered,
          totalRetail = totalRetail,
          totalWarehouse = totalWarehouse,
          totalSales = jsadd totalRetail totalWarehouse\<rparr>)"

text \<open>The sum of a list of numbers, from 0 and from the left.\<close>

definition jssum :: "jsnum list \<Rightarrow> jsnum" where
  "jssum xs = foldl jsadd (Fin 0) xs"

section \<open>The vote\<close>

text \<open>
  The two buttons call \<^verbatim>\<open>handleVote('support')\<close> and
  \<^verbatim>\<open>handleVote('against')\<close>. The store holds one document per user under
  \<^verbatim>\<open>userVotes\<close> and the counter document \<^verbatim>\<open>votes/salesData\<close>, which
  only \<^verbatim>\<open>handleVote\<close> writes, with both fields.
\<close>

datatype vote = Support | Against

record user_vote_doc =
  vote_of :: vote
  timestamp :: nat

record counter =
  support :: int
  against :: int

record store =
  userVotes :: "string \<rightharpoonup> user_vote_doc"
  votes_doc :: "counter option"

text \<open>The component's state that the vote reads and writes: the signed-in uid and the vote.\<close>

record viewer =
  user :: "string option"
  userVote :: "vote option"

text \<open>
  Each awaited call on the store either resolves or rejects; which of the three calls of
  \<^verbatim>\<open>handleVote\<close> resolve is an input. A rejected write leaves the store as it
  was.
\<close>

record outcome =
  record_write_ok :: bool
  counter_read_ok :: bool
  counter_write_ok :: bool

text \<open>The writes \<^verbatim>\<open>handleVote\<close> sends, in order, whether or not they resolve.\<close>

datatype store_write =
  SetUserVote string user_vote_doc
| MergeIncrement vote
| SetCounter counter

text \<open>\<^verbatim>\<open>setDoc(voteRef, {[voteType]: increment(1)}, {merge: true})\<close>.\<close>

fun merge_increment :: "vote \<Rightarrow> counter \<Rightarrow> counter" where
  "merge_increment Support c = c\<lparr>support := support c + 1\<rparr>"
| "merge_increment Against c = c\<lparr>against := against c + 1\<rparr>"

definition fresh_counter :: "vote \<Rightarrow> counter" where
  "fresh_counter voteType =
     \<lparr>support = (if voteType = Support then 1 else 0),
      against = (if voteType = Against then 1 else 0)\<rparr>"

text \<open>
  \<^verbatim>\<open>handleVote\<close> (App.jsx 120-149), run to its end: the guard, the write of
  the user's document, the read of the counter, the write of the counter, and
  \<^verbatim>\<open>setUserVote\<close> last. A rejection anywhere goes to the \<^verbatim>\<open>catch\<close>,
  which only logs. \<open>now\<close> is \<^verbatim>\<open>new Date()\<close>.
\<close>

definition handleVote ::
  "outcome \<Rightarrow> nat \<Rightarrow> vote \<Rightarrow> viewer \<times> store \<Rightarrow> viewer \<times> store \<times> store_write list" where
  "handleVote oc now voteType vs =
     (let (v, db) = vs in
      case user v of
        None \<Rightarrow> (v, db, [])
      | Some uid \<Rightarrow>
          (case userVote v of
             Some voted \<Rightarrow> (v, db, [])
           | None \<Rightarrow>
               (let d = \<lparr>vote_of = voteType, timestamp = now\<rparr>;
                    w1 = SetUserVote uid d
                in if \<not> record_write_ok oc then (v, db, [w1])
                   else
                     let db1 = db\<lparr>userVotes := (userVotes db)(uid \<mapsto> d)\<rparr>
                     in if \<not> counter_read_ok oc then (v, db1, [w1])
                        else
                          (case votes_doc db1 of
                             Some c \<Rightarrow>
                               if \<not> counter_write_ok oc then (v, db1, [w1, MergeIncrement voteType])
                               else (v\<lparr>userVote := Some voteType\<rparr>,
                                     db1\<lparr>votes_doc := Some (merge_increment voteType c)\<rparr>,
                                     [w1, MergeIncrement voteType])
                           | None \<Rightarrow>
                               if \<not> counter_write_ok oc
                               then (v, db1, [w1, SetCounter (fresh_counter voteType)])
                               else (v\<lparr>userVote := Some voteType\<rparr>,
                                     db1\<lparr>votes_doc := Some (fresh_counter voteType)\<rparr>,
                                     [w1, SetCounter (fresh_counter voteType)])))))"

text \<open>
  The listener of \<^verbatim>\<open>onAuthStateChanged\<close> (App.jsx 77-92). On a sign-in it
  calls \<^verbatim>\<open>setUser\<close> and starts the read of the user's document, then
  returns: \<^verbatim>\<open>userVote\<close> is left as it is, and the read is in flight. On a
  sign-out it calls \<^verbatim>\<open>setUser(null)\<close> and \<^verbatim>\<open>setUserVote(null)\<close>.
  The reads in flight are kept beside the viewer's state, by the uid they read; the effect
  has no cleanup for them.
\<close>

definition onAuthStateChanged :: "string option \<Rightarrow> viewer \<times> string list \<Rightarrow> viewer \<times> string list" where
  "onAuthStateChanged currentUser vp =
     (let (v, pending) = vp in
      case currentUser of
        Some uid \<Rightarrow> (v\<lparr>user := currentUser\<rparr>, pending @ [uid])
      | None \<Rightarrow> (v\<lparr>user := None, userVote := None\<rparr>, pending))"

text \<open>
  The callback given to \<^verbatim>\<open>then\<close> (App.jsx 82-86), which runs when the read
  resolves: it calls \<^verbatim>\<open>setUserVote\<close> when the document exists, and looks
  neither at who is signed in by then nor at the uid the read was started for.
\<close>

definition docSnap_then :: "user_vote_doc option \<Rightarrow> viewer \<Rightarrow> viewer" where
  "docSnap_then docSnap v =
     (case docSnap of
        Some d \<Rightarrow> v\<lparr>userVote := Some (vote_of d)\<rparr>
      | None \<Rightarrow> v)"

text \<open>
  A read in flight for \<open>uid\<close> settles: resolved, its callback runs on the document
  the store holds under \<open>uid\<close>; rejected, nothing runs (the promise has no
  \<^verbatim>\<open>catch\<close>).
\<close>

definition getDoc_settles :: "string \<Rightarrow> bool \<Rightarrow> store \<Rightarrow> viewer \<times> string list \<Rightarrow> viewer \<times> string list" where
  "getDoc_settles uid read_ok db vp =
     (let (v, pending) = vp in
      if uid \<in> set pending
      then (if read_ok then docSnap_then (userVotes db uid) v else v, remove1 uid pending)
      else (v, pending))"

text \<open>The component's first render: nobody signed in, no vote, no read in flight.\<close>

definition initial_viewer :: "viewer \<times> string list" where
  "initial_viewer = (\<lparr>user = None, userVote = None\<rparr>, [])"


text \<open>
  The month index of a row as the table prints it (App.jsx 575,
  \<^verbatim>\<open>MONTHS[parseInt(row.MONTH) - 1]\<close>); \<^verbatim>\<open>parseInt(undefined)\<close>
  is \<open>NaN\<close>.
\<close>

definition month_index :: "row \<Rightarrow> int option" where
  "month_index row = (case MONTH row of None \<Rightarrow> None | Some m \<Rightarrow> parseInt m)"

text \<open>A row of a line with all of the six cells, for writing examples.\<close>

definition mk_row :: "string \<Rightarrow> string \<Rightarrow> string \<Rightarrow> string \<Rightarrow> string \<Rightarrow> string \<Rightarrow> row" where
  "mk_row y m t s r w =
     \<lparr>YEAR = Some y, MONTH = Some m, ITEM_TYPE = Some t, SUPPLIER = Some s,
      RETAIL_SALES = Some r, WAREHOUSE_SALES = Some w\<rparr>"

text \<open>
  Two clicks on a vote button. \<^verbatim>\<open>handleVote\<close> reads the
  \<^verbatim>\<open>user\<close> and the \<^verbatim>\<open>userVote\<close> of the render it was
  created in, and calls \<^verbatim>\<open>setUserVote\<close> only after its last write; the
  buttons stay on the page until a render sees a vote. So the call of the second click
  passes the guard on the same state \<open>v\<close> as the first, whether the first has
  failed or is still waiting for its last write. The store answers the requests of the
  first call before those of the second, and the state afterwards is that of the last
  \<^verbatim>\<open>setUserVote\<close> called.
\<close>

definition vote_twice ::
  "outcome \<Rightarrow> nat \<Rightarrow> vote \<Rightarrow> outcome \<Rightarrow> nat \<Rightarrow> vote \<Rightarrow> viewer \<times> store
     \<Rightarrow> viewer \<times> store \<times> store_write list" where
  "vote_twice oc1 t1 k1 oc2 t2 k2 vs =
     (let (v, db) = vs in
      case handleVote oc1 t1 k1 (v, db) of
        (v1, db1, ws1) \<Rightarrow>
          (case handleVote oc2 t2 k2 (v, db1) of
             (v2, db2, ws2) \<Rightarrow> (if v2 = v then v1 else v2, db2, ws1 @ ws2)))"

text \<open>
  A row with each missing or empty sales field replaced by the text \<^verbatim>\<open>0\<close>,
  for stating what such a field adds to a total.
\<close>

definition zero_missing :: "row \<Rightarrow> row" where
  "zero_missing row =
     row\<lparr>RETAIL_SALES := (if truthy (RETAIL_SALES row) then RETAIL_SALES row else Some ''0''),
         WAREHOUSE_SALES :=
           (if truthy (WAREHOUSE_SALES row) then WAREHOUSE_SALES row else Some ''0'')\<rparr>"

text \<open>The selection the component starts with: no facet restricts.\<close>

definition no_selection :: selection where
  "no_selection = \<lparr>selectedType = ''ALL'', selectedYear = ''ALL'', selectedSupplier = ''ALL''\<rparr>"

text \<open>
  Comparison of strings by code unit, with the sign convention of a comparator. On keys
  made of ASCII digits and \<^verbatim>\<open>-\<close> this is the order \<^verbatim>\<open>localeCompare\<close>
  gives.
\<close>

definition code_unit_compare :: "string \<Rightarrow> string \<Rightarrow> int" where
  "code_unit_compare a b = (if a < b then - 1 else if a = b then 0 else 1)"

text \<open>
  The numbers that are non-negative whole numbers, and the whole number such a number
  stands for (0 for a number that is not finite), for stating sums of whole numbers.
\<close>

definition is_whole :: "jsnum \<Rightarrow> bool" where
  "is_whole x = (case x of Fin q \<Rightarrow> 0 \<le> q \<and> of_int \<lfloor>q\<rfloor> = q | _ \<Rightarrow> False)"

definition whole :: "jsnum \<Rightarrow> nat" where
  "whole x = (case x of Fin q \<Rightarrow> nat \<lfloor>q\<rfloor> | _ \<Rightarrow> 0)"

section \<open>What the loader keeps and the filter returns\<close>

lemma keep_row_iff:
  "keep_row sel r \<longleftrightarrow>
     (selectedType sel = ''ALL'' \<or> ITEM_TYPE r = Some (selectedType sel)) \<and>
     (selectedYear sel = ''ALL'' \<or> YEAR r = Some (selectedYear sel)) \<and>
     (selectedSupplier sel = ''ALL'' \<or> SUPPLIER r = Some (selectedSupplier sel))"
  by (auto simp: keep_row_def)

lemma truthy_iff: "truthy f \<longleftrightarrow> (\<exists>s. f = Some s \<and> s \<noteq> [])"
  by (cases f) auto

lemma array_includes_iff: "array_includes xs f \<longleftrightarrow> (\<exists>s. f = Some s \<and> s \<in> set xs)"
  by (cases f) auto

lemma set_ITEM_TYPES:
  "set ITEM_TYPES = {''BEER'', ''WINE'', ''LIQUOR'', ''KEGS'', ''NON-ALCOHOL''}"
  by (simp add: ITEM_TYPES_def)

lemma SODA_not_item_type: "''SODA'' \<notin> set ITEM_TYPES"
  by (simp add: ITEM_TYPES_def)

lemma clean_test_iff:
  "truthy (YEAR r) \<and> truthy (MONTH r) \<and> truthy (ITEM_TYPE r) \<and> array_includes ITEM_TYPES (ITEM_TYPE r)
   \<longleftrightarrow> (\<exists>y. YEAR r = Some y \<and> y \<noteq> []) \<and> (\<exists>m. MONTH r = Some m \<and> m \<noteq> []) \<and>
       (\<exists>t. ITEM_TYPE r = Some t \<and> t \<noteq> [] \<and> t \<in> set ITEM_TYPES)"
  unfolding truthy_iff array_includes_iff by auto

text \<open>
  C1. The filter returns exactly the rows of the input that agree with every facet of the
  selection that is not \<^verbatim>\<open>ALL\<close> (item type, year, supplier, each by equality of
  strings, all three together), and it returns them in the order of the input: the result
  is the input with the other rows struck out.
\<close>

theorem filteredData_exact:
  "filteredData sel dat =
     filter (\<lambda>r. (selectedType sel \<noteq> ''ALL'' \<longrightarrow> ITEM_TYPE r = Some (selectedType sel)) \<and>
                 (selectedYear sel \<noteq> ''ALL'' \<longrightarrow> YEAR r = Some (selectedYear sel)) \<and>
                 (selectedSupplier sel \<noteq> ''ALL'' \<longrightarrow> SUPPLIER r = Some (selectedSupplier sel)))
       dat
   \<and> subseq (filteredData sel dat) dat"
proof
  have "keep_row sel =
     (\<lambda>r. (selectedType sel \<noteq> ''ALL'' \<longrightarrow> ITEM_TYPE r = Some (selectedType sel)) \<and>
          (selectedYear sel \<noteq> ''ALL'' \<longrightarrow> YEAR r = Some (selectedYear sel)) \<and>
          (selectedSupplier sel \<noteq> ''ALL'' \<longrightarrow> SUPPLIER r = Some (selectedSupplier sel)))"
    by (rule ext) (auto simp: keep_row_iff)
  then show "filteredData sel dat =
     filter (\<lambda>r. (selectedType sel \<noteq> ''ALL'' \<longrightarrow> ITEM_TYPE r = Some (selectedType sel)) \<and>
                 (selectedYear sel \<noteq> ''ALL'' \<longrightarrow> YEAR r = Some (selectedYear sel)) \<and>
                 (selectedSupplier sel \<noteq> ''ALL'' \<longrightarrow> SUPPLIER r = Some (selectedSupplier sel)))
       dat"
    by (simp add: filteredData_def)
  show "subseq (filteredData sel dat) dat"
    by (simp add: filteredData_def)
qed

theorem filteredData_exact_witness:
  "filteredData \<lparr>selectedType = ''BEER'', selectedYear = ''2020'', selectedSupplier = ''ALL''\<rparr>
     [mk_row ''2020'' ''1'' ''BEER'' ''A'' ''10'' ''5'',
      mk_row ''2020'' ''1'' ''WINE'' ''A'' ''20'' ''0'',
      mk_row ''2019'' ''7'' ''BEER'' ''B'' ''1'' ''2'',
      mk_row ''2020'' ''3'' ''BEER'' ''C'' ''4'' ''4'']
   = [mk_row ''2020'' ''1'' ''BEER'' ''A'' ''10'' ''5'',
      mk_row ''2020'' ''3'' ''BEER'' ''C'' ''4'' ''4'']"
proof -
  note step = filteredData_exact [THEN conjunct1,
    of "\<lparr>selectedType = ''BEER'', selectedYear = ''2020'', selectedSupplier = ''ALL''\<rparr>"]
  show ?thesis
    by (subst step) (simp add: mk_row_def)
qed

text \<open>
  C2. A row of the parse result is kept by the loader if and only if its YEAR, MONTH and
  ITEM TYPE are present (defined and not empty) and its ITEM TYPE is one of BEER, WINE,
  LIQUOR, KEGS, NON-ALCOHOL; the kept rows keep their order. A row that fails the test is
  left out and the load still completes with the other rows, so a row whose ITEM TYPE is
  SODA is never among the loaded rows.
\<close>

theorem cleanData_retains_iff:
  "cleanData results_data =
     filter (\<lambda>r. (\<exists>y. YEAR r = Some y \<and> y \<noteq> []) \<and>
                 (\<exists>m. MONTH r = Some m \<and> m \<noteq> []) \<and>
                 (\<exists>t. ITEM_TYPE r = Some t \<and> t \<noteq> [] \<and>
                      t \<in> {''BEER'', ''WINE'', ''LIQUOR'', ''KEGS'', ''NON-ALCOHOL''}))
       results_data
   \<and> on_parse (Complete results_data) s = s\<lparr>data := cleanData results_data, loading := False\<rparr>
   \<and> (\<forall>r. ITEM_TYPE r = Some ''SODA'' \<longrightarrow> r \<notin> set (data (on_parse (Complete results_data) s)))"
proof -
  have "cleanData results_data =
     filter (\<lambda>r. (\<exists>y. YEAR r = Some y \<and> y \<noteq> []) \<and>
                 (\<exists>m. MONTH r = Some m \<and> m \<noteq> []) \<and>
                 (\<exists>t. ITEM_TYPE r = Some t \<and> t \<noteq> [] \<and>
                      t \<in> {''BEER'', ''WINE'', ''LIQUOR'', ''KEGS'', ''NON-ALCOHOL''}))
       results_data"
    unfolding cleanData_def set_ITEM_TYPES [symmetric] clean_test_iff ..
  moreover have "\<forall>r. ITEM_TYPE r = Some ''SODA'' \<longrightarrow> r \<notin> set (cleanData results_data)"
    using SODA_not_item_type by (auto simp: cleanData_def)
  ultimately show ?thesis
    by simp
qed

lemma ex_clean:
  "cleanData
     [mk_row ''2020'' ''1'' ''BEER'' ''A'' ''10'' ''5'',
      mk_row ''2020'' ''1'' ''SODA'' ''A'' ''20'' ''0'',
      mk_row [] ''1'' ''WINE'' ''A'' ''20'' ''0'',
      \<lparr>YEAR = Some ''2020'', MONTH = None, ITEM_TYPE = Some ''KEGS'', SUPPLIER = None,
       RETAIL_SALES = None, WAREHOUSE_SALES = None\<rparr>,
      mk_row ''2021'' ''12'' ''NON-ALCOHOL'' [] [] ''x'']
   = [mk_row ''2020'' ''1'' ''BEER'' ''A'' ''10'' ''5'',
      mk_row ''2021'' ''12'' ''NON-ALCOHOL'' [] [] ''x'']"
  by (simp add: cleanData_def mk_row_def ITEM_TYPES_def)

theorem cleanData_retains_iff_witness:
  "data (on_parse (Complete
     [mk_row ''2020'' ''1'' ''BEER'' ''A'' ''10'' ''5'',
      mk_row ''2020'' ''1'' ''SODA'' ''A'' ''20'' ''0'',
      mk_row [] ''1'' ''WINE'' ''A'' ''20'' ''0'',
      \<lparr>YEAR = Some ''2020'', MONTH = None, ITEM_TYPE = Some ''KEGS'', SUPPLIER = None,
       RETAIL_SALES = None, WAREHOUSE_SALES = None\<rparr>,
      mk_row ''2021'' ''12'' ''NON-ALCOHOL'' [] [] ''x''])
     \<lparr>data = [], loading = True\<rparr>)
   = [mk_row ''2020'' ''1'' ''BEER'' ''A'' ''10'' ''5'',
      mk_row ''2021'' ''12'' ''NON-ALCOHOL'' [] [] ''x'']
   \<and> mk_row ''2020'' ''1'' ''SODA'' ''A'' ''20'' ''0'' \<notin> set (data (on_parse (Complete
     [mk_row ''2020'' ''1'' ''BEER'' ''A'' ''10'' ''5'',
      mk_row ''2020'' ''1'' ''SODA'' ''A'' ''20'' ''0'']) \<lparr>data = [], loading = True\<rparr>))"
proof
  show "mk_row ''2020'' ''1'' ''SODA'' ''A'' ''20'' ''0'' \<notin> set (data (on_parse (Complete
     [mk_row ''2020'' ''1'' ''BEER'' ''A'' ''10'' ''5'',
      mk_row ''2020'' ''1'' ''SODA'' ''A'' ''20'' ''0'']) \<lparr>data = [], loading = True\<rparr>))"
    by (rule cleanData_retains_iff [THEN conjunct2, THEN conjunct2, rule_format])
       (simp add: mk_row_def)
  show "data (on_parse (Complete
     [mk_row ''2020'' ''1'' ''BEER'' ''A'' ''10'' ''5'',
      mk_row ''2020'' ''1'' ''SODA'' ''A'' ''20'' ''0'',
      mk_row [] ''1'' ''WINE'' ''A'' ''20'' ''0'',
      \<lparr>YEAR = Some ''2020'', MONTH = None, ITEM_TYPE = Some ''KEGS'', SUPPLIER = None,
       RETAIL_SALES = None, WAREHOUSE_SALES = None\<rparr>,
      mk_row ''2021'' ''12'' ''NON-ALCOHOL'' [] [] ''x''])
     \<lparr>data = [], loading = True\<rparr>)
   = [mk_row ''2020'' ''1'' ''BEER'' ''A'' ''10'' ''5'',
      mk_row ''2021'' ''12'' ''NON-ALCOHOL'' [] [] ''x'']"
    by (simp only: cleanData_retains_iff [THEN conjunct2, THEN conjunct1] ex_clean)
       simp
qed

text \<open>
  C8, as the spec states it, fails: the loader keeps a row whose MONTH is 13, whose RETAIL
  SALES is negative and whose WAREHOUSE SALES is not a number.
\<close>

theorem cleanData_data_model_counterexample:
  "mk_row ''2020'' ''13'' ''BEER'' ''A'' ''-5'' ''abc''
     \<in> set (cleanData [mk_row ''2020'' ''13'' ''BEER'' ''A'' ''-5'' ''abc''])
   \<and> month_index (mk_row ''2020'' ''13'' ''BEER'' ''A'' ''-5'' ''abc'') = Some 13
   \<and> salesNum (RETAIL_SALES (mk_row ''2020'' ''13'' ''BEER'' ''A'' ''-5'' ''abc'')) = Fin (- 5)
   \<and> salesNum (WAREHOUSE_SALES (mk_row ''2020'' ''13'' ''BEER'' ''A'' ''-5'' ''abc'')) = NaN"
  by code_simp

text \<open>
  C8, amended. Every row the loader keeps has a YEAR and a MONTH that are present (defined
  and not empty) and an ITEM TYPE among the five of \<open>ITEM_TYPES\<close>.
\<close>

theorem cleanData_retained_fields:
  "r \<in> set (cleanData results_data) \<Longrightarrow>
     (\<exists>y. YEAR r = Some y \<and> y \<noteq> []) \<and> (\<exists>m. MONTH r = Some m \<and> m \<noteq> []) \<and>
     (\<exists>t. ITEM_TYPE r = Some t \<and> t \<in> set ITEM_TYPES)"
  by (auto simp: cleanData_def truthy_iff array_includes_iff)

theorem cleanData_retained_fields_witness:
  "mk_row ''2020'' ''13'' ''BEER'' ''A'' ''-5'' ''abc''
     \<in> set (cleanData [mk_row ''2020'' ''13'' ''BEER'' ''A'' ''-5'' ''abc'',
                       mk_row ''2020'' ''1'' ''SODA'' ''A'' ''20'' ''0''])
   \<and> (\<exists>y. YEAR (mk_row ''2020'' ''13'' ''BEER'' ''A'' ''-5'' ''abc'') = Some y \<and> y \<noteq> [])
   \<and> (\<exists>m. MONTH (mk_row ''2020'' ''13'' ''BEER'' ''A'' ''-5'' ''abc'') = Some m \<and> m \<noteq> [])
   \<and> (\<exists>t. ITEM_TYPE (mk_row ''2020'' ''13'' ''BEER'' ''A'' ''-5'' ''abc'') = Some t
          \<and> t \<in> set ITEM_TYPES)"
proof -
  have m: "mk_row ''2020'' ''13'' ''BEER'' ''A'' ''-5'' ''abc''
     \<in> set (cleanData [mk_row ''2020'' ''13'' ''BEER'' ''A'' ''-5'' ''abc'',
                       mk_row ''2020'' ''1'' ''SODA'' ''A'' ''20'' ''0''])"
    by (simp add: cleanData_def mk_row_def ITEM_TYPES_def)
  from cleanData_retained_fields [OF m] m show ?thesis
    by blast
qed


section \<open>Casting a vote and changing the session\<close>

lemma handleVote_voted:
  "userVote v = Some voted \<Longrightarrow> handleVote oc now k (v, db) = (v, db, [])"
  by (simp add: handleVote_def split: option.split)

lemma handleVote_ok:
  assumes "user v = Some uid" "userVote v = None"
    and "record_write_ok oc" "counter_read_ok oc" "counter_write_ok oc"
  shows "handleVote oc now k (v, db) =
     (v\<lparr>userVote := Some k\<rparr>,
      db\<lparr>userVotes := (userVotes db)(uid \<mapsto> \<lparr>vote_of = k, timestamp = now\<rparr>),
         votes_doc := Some (case votes_doc db of
                              None \<Rightarrow> fresh_counter k
                            | Some c \<Rightarrow> merge_increment k c)\<rparr>,
      [SetUserVote uid \<lparr>vote_of = k, timestamp = now\<rparr>,
       case votes_doc db of
         None \<Rightarrow> SetCounter (fresh_counter k)
       | Some c \<Rightarrow> MergeIncrement k])"
  using assms by (simp add: handleVote_def Let_def split: option.split)



text \<open>
  The guard of \<^verbatim>\<open>handleVote\<close> is \<open>handleVote_voted\<close> above: called on a
  state whose \<open>userVote\<close> is set, it sends no write and changes neither the viewer's
  state nor the store. What the guard reads, however, is the state of the render the
  handler was created in.
\<close>

text \<open>
  C5 does not hold of the code. A signed-in viewer without a vote clicks Support twice
  before the first call has reached its \<^verbatim>\<open>setUserVote\<close>; all calls on the
  store succeed. Both calls pass the guard, each sends the write of the user's document
  and an increment, and the counter goes from 3 to 5 for the one identity.
\<close>

theorem handleVote_counted_twice:
  "fst (vote_twice
      \<lparr>record_write_ok = True, counter_read_ok = True, counter_write_ok = True\<rparr> 5 Support
      \<lparr>record_write_ok = True, counter_read_ok = True, counter_write_ok = True\<rparr> 6 Support
      (\<lparr>user = Some ''u1'', userVote = None\<rparr>,
       \<lparr>userVotes = Map.empty, votes_doc = Some \<lparr>support = 3, against = 1\<rparr>\<rparr>))
     = \<lparr>user = Some ''u1'', userVote = Some Support\<rparr>
   \<and> votes_doc (fst (snd (vote_twice
      \<lparr>record_write_ok = True, counter_read_ok = True, counter_write_ok = True\<rparr> 5 Support
      \<lparr>record_write_ok = True, counter_read_ok = True, counter_write_ok = True\<rparr> 6 Support
      (\<lparr>user = Some ''u1'', userVote = None\<rparr>,
       \<lparr>userVotes = Map.empty, votes_doc = Some \<lparr>support = 3, against = 1\<rparr>\<rparr>))))
     = Some \<lparr>support = 5, against = 1\<rparr>
   \<and> snd (snd (vote_twice
      \<lparr>record_write_ok = True, counter_read_ok = True, counter_write_ok = True\<rparr> 5 Support
      \<lparr>record_write_ok = True, counter_read_ok = True, counter_write_ok = True\<rparr> 6 Support
      (\<lparr>user = Some ''u1'', userVote = None\<rparr>,
       \<lparr>userVotes = Map.empty, votes_doc = Some \<lparr>support = 3, against = 1\<rparr>\<rparr>)))
     = [SetUserVote ''u1'' \<lparr>vote_of = Support, timestamp = 5\<rparr>, MergeIncrement Support,
        SetUserVote ''u1'' \<lparr>vote_of = Support, timestamp = 6\<rparr>, MergeIncrement Support]"
  by (simp add: vote_twice_def handleVote_def Let_def)

text \<open>
  Nor is a recorded vote the end for an identity. \<open>u1\<close> has voted Support and signs
  in again; the read of the user's document is rejected, so no vote is set and the
  buttons are shown; a click then counts \<open>u1\<close> a second time.
\<close>

lemma vote_again_after_rejected_read:
  "getDoc_settles ''u1'' False
      \<lparr>userVotes = [''u1'' \<mapsto> \<lparr>vote_of = Support, timestamp = 5\<rparr>],
       votes_doc = Some \<lparr>support = 4, against = 1\<rparr>\<rparr>
      (onAuthStateChanged (Some ''u1'') initial_viewer)
     = (\<lparr>user = Some ''u1'', userVote = None\<rparr>, [])
   \<and> votes_doc (fst (snd (handleVote
      \<lparr>record_write_ok = True, counter_read_ok = True, counter_write_ok = True\<rparr> 9 Support
      (\<lparr>user = Some ''u1'', userVote = None\<rparr>,
       \<lparr>userVotes = [''u1'' \<mapsto> \<lparr>vote_of = Support, timestamp = 5\<rparr>],
        votes_doc = Some \<lparr>support = 4, against = 1\<rparr>\<rparr>))))
     = Some \<lparr>support = 5, against = 1\<rparr>"
  by (simp add: getDoc_settles_def onAuthStateChanged_def initial_viewer_def handleVote_def
      Let_def)




text \<open>
  C7. When the counter document does not exist and a signed-in viewer without a vote
  votes \<open>support\<close>, all three calls succeeding, the counter document afterwards is
  \<open>{support: 1, against: 0}\<close>: it is written whole by a plain \<^verbatim>\<open>setDoc\<close>,
  and no increment is sent.
\<close>

theorem first_vote_creates_counter:
  assumes "user v = Some uid" and "userVote v = None" and "votes_doc db = None"
    and "record_write_ok oc" and "counter_read_ok oc" and "counter_write_ok oc"
  shows "votes_doc (fst (snd (handleVote oc now Support (v, db))))
           = Some \<lparr>support = 1, against = 0\<rparr>
     \<and> snd (snd (handleVote oc now Support (v, db)))
           = [SetUserVote uid \<lparr>vote_of = Support, timestamp = now\<rparr>,
              SetCounter \<lparr>support = 1, against = 0\<rparr>]"
  by (simp add: handleVote_ok [OF assms(1,2,4,5,6)] assms(3) fresh_counter_def)

theorem first_vote_creates_counter_witness:
  "votes_doc (fst (snd (handleVote
      \<lparr>record_write_ok = True, counter_read_ok = True, counter_write_ok = True\<rparr> 5 Support
      (\<lparr>user = Some ''u1'', userVote = None\<rparr>, \<lparr>userVotes = Map.empty, votes_doc = None\<rparr>))))
   = Some \<lparr>support = 1, against = 0\<rparr>"
proof -
  from first_vote_creates_counter [
    where v = "\<lparr>user = Some ''u1'', userVote = None\<rparr>" and uid = "''u1''"
      and oc = "\<lparr>record_write_ok = True, counter_read_ok = True, counter_write_ok = True\<rparr>"
      and now = 5 and db = "\<lparr>userVotes = Map.empty, votes_doc = None\<rparr>"]
  show ?thesis
    by simp
qed

lemma onAuthStateChanged_sign_out:
  "fst (onAuthStateChanged None (v, pending)) = \<lparr>user = None, userVote = None\<rparr>"
  by (cases v) (simp add: onAuthStateChanged_def)

lemma sign_in_resolved:
  "userVote v = None \<Longrightarrow>
     getDoc_settles uid True db (onAuthStateChanged (Some uid) (v, []))
       = (\<lparr>user = Some uid, userVote = map_option vote_of (userVotes db uid)\<rparr>, [])"
  by (cases v)
     (simp add: getDoc_settles_def onAuthStateChanged_def docSnap_then_def split: option.split)

text \<open>
  The listener does set the vote to null on a sign-out (\<open>onAuthStateChanged_sign_out\<close>),
  and a sign-in whose read resolves before anything else happens gives the vote stored
  under the new uid (\<open>sign_in_resolved\<close>). But the read is not tied to the session it
  was started in.
\<close>

text \<open>
  C10 does not hold of the code. \<open>u1\<close>, who has voted Support, signs in and signs out
  before the read of their document has resolved; the read then resolves and its callback
  sets the vote. \<open>u2\<close>, who has no document, signs in: the listener leaves the vote
  as it is and the read for \<open>u2\<close> finds nothing. \<open>u2\<close> is shown the vote of
  \<open>u1\<close>, and \<^verbatim>\<open>handleVote\<close> refuses the vote of \<open>u2\<close>.
\<close>

theorem userVote_carried_over:
  "getDoc_settles ''u2'' True
     \<lparr>userVotes = [''u1'' \<mapsto> \<lparr>vote_of = Support, timestamp = 5\<rparr>],
      votes_doc = Some \<lparr>support = 1, against = 0\<rparr>\<rparr>
     (onAuthStateChanged (Some ''u2'')
        (getDoc_settles ''u1'' True
           \<lparr>userVotes = [''u1'' \<mapsto> \<lparr>vote_of = Support, timestamp = 5\<rparr>],
            votes_doc = Some \<lparr>support = 1, against = 0\<rparr>\<rparr>
           (onAuthStateChanged None
              (onAuthStateChanged (Some ''u1'') initial_viewer))))
     = (\<lparr>user = Some ''u2'', userVote = Some Support\<rparr>, [])
   \<and> userVotes \<lparr>userVotes = [''u1'' \<mapsto> \<lparr>vote_of = Support, timestamp = 5\<rparr>],
                 votes_doc = Some \<lparr>support = 1, against = 0\<rparr>\<rparr> ''u2'' = None
   \<and> snd (snd (handleVote
        \<lparr>record_write_ok = True, counter_read_ok = True, counter_write_ok = True\<rparr> 9 Against
        (\<lparr>user = Some ''u2'', userVote = Some Support\<rparr>,
         \<lparr>userVotes = [''u1'' \<mapsto> \<lparr>vote_of = Support, timestamp = 5\<rparr>],
          votes_doc = Some \<lparr>support = 1, against = 0\<rparr>\<rparr>))) = []"
  by (simp add: getDoc_settles_def onAuthStateChanged_def docSnap_then_def initial_viewer_def
      handleVote_def Let_def)

section \<open>Doubles that are whole numbers\<close>

lemma two_to_1024_eq: "two_to_1024 = 2 ^ 1024"
  by (simp add: two_to_1024_def)

lemma bit_length_le: "n < 2 ^ k \<Longrightarrow> bit_length n \<le> k"
proof (induction k arbitrary: n)
  case 0
  then show ?case
    by (simp add: bit_length.simps)
next
  case (Suc k)
  show ?case
  proof (cases "n \<le> 0")
    case True
    then show ?thesis
      by (simp add: bit_length.simps)
  next
    case False
    from Suc.prems have "n div 2 < 2 ^ k"
      by simp
    then have "bit_length (n div 2) \<le> k"
      by (rule Suc.IH)
    with False show ?thesis
      by (subst bit_length.simps) simp
  qed
qed

lemma round_half_even_of_int: "round_half_even (of_int z) = z"
  by (simp add: round_half_even_def)

lemma pow2_nonpos: "e \<le> 0 \<Longrightarrow> pow2 e = 1 / 2 ^ nat (- e)"
  by (cases "e = 0") (simp_all add: pow2_def)

lemma round_double_of_int:
  assumes "\<bar>n\<bar> < 2 ^ 53"
  shows "round_double (of_int n) = Fin (of_int n)"
proof (cases "n = 0")
  case True
  then show ?thesis
    by (simp add: round_double_def)
next
  case False
  define a :: rat where "a = \<bar>of_int n\<bar>"
  define e where "e = max (- 1074) (ilog2 a - 52)"
  have a: "a = of_int \<bar>n\<bar>"
    by (simp add: a_def)
  from False have "1 \<le> \<bar>n\<bar>"
    by simp
  then have one: "1 \<le> a"
    unfolding a by (simp only: of_int_1_le_iff)
  from assms have "bit_length \<bar>n\<bar> \<le> 53"
    by (rule bit_length_le)
  moreover have "\<lfloor>a\<rfloor> = \<bar>n\<bar>"
    by (simp only: a floor_of_int)
  ultimately have "ilog2 a - 52 \<le> 0"
    using one by (simp add: ilog2_def)
  then have e: "e \<le> 0"
    by (simp add: e_def)
  have scaled: "a / pow2 e = of_int (\<bar>n\<bar> * 2 ^ nat (- e))"
    by (simp add: pow2_nonpos [OF e] a)
  have unscaled: "of_int (\<bar>n\<bar> * 2 ^ nat (- e)) * pow2 e = a"
    by (simp add: pow2_nonpos [OF e] a)
  have "a < 2 ^ 53"
    unfolding a using assms by (metis of_int_less_numeral_power_cancel_iff)
  also have "\<dots> \<le> (2 ^ 1024 :: rat)"
    by (rule power_increasing) simp_all
  finally have small: "\<not> two_to_1024 \<le> a"
    by (simp add: two_to_1024_eq)
  have "of_int (round_half_even (a / pow2 e)) * pow2 e = a"
    by (simp only: scaled round_half_even_of_int unscaled)
  then have r: "of_int (round_half_even (\<bar>of_int n\<bar> / pow2 (max (- 1074) (ilog2 \<bar>of_int n\<bar> - 52))))
      * pow2 (max (- 1074) (ilog2 \<bar>of_int n\<bar> - 52)) = \<bar>of_int n :: rat\<bar>"
    unfolding e_def a_def .
  from False have nz: "(of_int n :: rat) \<noteq> 0"
    by simp
  have small': "\<not> two_to_1024 \<le> \<bar>of_int n :: rat\<bar>"
    using small unfolding a_def .
  have "round_double (of_int n)
      = (if two_to_1024 \<le> \<bar>of_int n :: rat\<bar> then Inf (0 < (of_int n :: rat))
         else Fin (if (of_int n :: rat) < 0 then - \<bar>of_int n\<bar> else \<bar>of_int n\<bar>))"
    by (simp only: round_double_def Let_def r nz if_False)
  also have "\<dots> = Fin (of_int n)"
    using small' by simp
  finally show ?thesis .
qed

lemma jsadd_of_nat:
  assumes "k + m < 2 ^ 53"
  shows "jsadd (Fin (of_nat k)) (Fin (of_nat m)) = Fin (of_nat (k + m))"
proof -
  have "\<bar>int (k + m)\<bar> < 2 ^ 53"
    using assms by (metis abs_of_nat of_nat_less_numeral_power_cancel_iff)
  from round_double_of_int [OF this] have "round_double (of_nat k + of_nat m) = Fin (of_nat (k + m))"
    by simp
  then show ?thesis
    by simp
qed

section \<open>Overflow\<close>

lemma pow2_pos: "0 < pow2 e"
  by (simp add: pow2_def)

lemma pow2_add: "pow2 (x + y) = pow2 x * pow2 y"
proof -
  have "pow2 e = 2 powi e" for e
    by (simp add: pow2_def power_int_def power_inverse inverse_eq_divide power_one_over)
  then show ?thesis
    by (simp add: power_int_add)
qed

lemma pow2_mono: "x \<le> y \<Longrightarrow> pow2 x \<le> pow2 y"
proof -
  have "pow2 e = 2 powi e" for e
    by (simp add: pow2_def power_int_def power_inverse inverse_eq_divide power_one_over)
  then show "x \<le> y \<Longrightarrow> pow2 x \<le> pow2 y"
    by (simp add: power_int_increasing)
qed

lemma bit_length_lower: "1 \<le> n \<Longrightarrow> 2 ^ (bit_length n - 1) \<le> n"
proof (induction n rule: bit_length.induct)
  case (1 n)
  show ?case
  proof (cases "n = 1")
    case True
    then show ?thesis
      by (simp add: bit_length.simps [of 1] bit_length.simps [of 0])
  next
    case False
    with "1.prems" have n: "2 \<le> n" by simp
    then have h: "1 \<le> n div 2" by simp
    from n have "\<not> n \<le> 0" by simp
    from "1.IH" [OF this h] have ih: "2 ^ (bit_length (n div 2) - 1) \<le> n div 2" .
    from h have "0 < bit_length (n div 2)"
      by (subst bit_length.simps) simp
    then have "bit_length n - 1 = Suc (bit_length (n div 2) - 1)"
      using n by (subst bit_length.simps) simp
    with ih show ?thesis
      by simp
  qed
qed

lemma ilog2_lower: "1 \<le> a \<Longrightarrow> pow2 (ilog2 a) \<le> a"
proof -
  assume a: "1 \<le> a"
  then have f: "1 \<le> \<lfloor>a\<rfloor>" by simp
  from bit_length_lower [OF f] have "(2::int) ^ (bit_length \<lfloor>a\<rfloor> - 1) \<le> \<lfloor>a\<rfloor>" .
  then have "(of_int ((2::int) ^ (bit_length \<lfloor>a\<rfloor> - 1)) :: rat) \<le> of_int \<lfloor>a\<rfloor>"
    by (simp only: of_int_le_iff)
  also have "\<dots> \<le> a" by simp
  finally have le: "(2::rat) ^ (bit_length \<lfloor>a\<rfloor> - 1) \<le> a" by simp
  from f have "0 < bit_length \<lfloor>a\<rfloor>"
    by (subst bit_length.simps) simp
  then have "ilog2 a = int (bit_length \<lfloor>a\<rfloor> - 1)"
    using a by (simp add: ilog2_def)
  with le show ?thesis
    by (simp add: pow2_def)
qed

lemma round_half_even_ge: "of_int n \<le> s \<Longrightarrow> n \<le> round_half_even s"
proof -
  assume "of_int n \<le> s"
  then have "n \<le> \<lfloor>s\<rfloor>" by (simp add: le_floor_iff)
  moreover have "\<lfloor>s\<rfloor> \<le> round_half_even s"
    by (simp add: round_half_even_def Let_def)
  ultimately show ?thesis by simp
qed

lemma two_to_1024_pow2: "two_to_1024 = pow2 1024"
  by (simp add: two_to_1024_eq pow2_def)

text \<open>A magnitude of \<open>2\<^sup>1\<^sup>0\<^sup>2\<^sup>4\<close> or more rounds to an infinity.\<close>

lemma round_double_overflow:
  assumes "two_to_1024 \<le> q"
  shows "round_double q = Inf True"
proof -
  have "(1::rat) \<le> 2 ^ 1024"
    by (rule one_le_power) simp
  then have big: "(1::rat) \<le> two_to_1024"
    by (simp only: two_to_1024_eq)
  with assms have q: "1 \<le> q" "0 < q" "q \<noteq> 0" "\<bar>q\<bar> = q"
    by simp_all
  define e where "e = max (- 1074) (ilog2 q - 52)"
  have p: "0 < pow2 e" by (rule pow2_pos)
  have "two_to_1024 \<le> of_int (round_half_even (q / pow2 e)) * pow2 e"
  proof (cases "e \<le> 1024")
    case True
    have "pow2 1024 = pow2 ((1024 - e) + e)"
      by simp
    also have "\<dots> = pow2 (1024 - e) * pow2 e"
      by (rule pow2_add)
    also from True have "pow2 (1024 - e) = of_int (2 ^ nat (1024 - e))"
      by (simp add: pow2_def)
    finally have t: "two_to_1024 = of_int (2 ^ nat (1024 - e)) * pow2 e"
      by (simp only: two_to_1024_pow2)
    from assms p have "of_int (2 ^ nat (1024 - e)) \<le> q / pow2 e"
      by (simp only: t pos_le_divide_eq)
    then have "2 ^ nat (1024 - e) \<le> round_half_even (q / pow2 e)"
      by (rule round_half_even_ge)
    then have "(of_int (2 ^ nat (1024 - e)) :: rat) \<le> of_int (round_half_even (q / pow2 e))"
      by (simp only: of_int_le_iff)
    with p show ?thesis
      unfolding t by (simp only: mult_le_cancel_right_pos)
  next
    case False
    then have e: "e = ilog2 q - 52"
      by (simp add: e_def max_def split: if_splits)
    then have "pow2 e \<le> pow2 (ilog2 q)"
      by (intro pow2_mono) simp
    also have "\<dots> \<le> q"
      using q(1) by (rule ilog2_lower)
    finally have "of_int 1 \<le> q / pow2 e"
      using p by (simp add: pos_le_divide_eq)
    then have "1 \<le> round_half_even (q / pow2 e)"
      by (rule round_half_even_ge)
    then have "(1::rat) \<le> of_int (round_half_even (q / pow2 e))"
      by simp
    with p have "pow2 e \<le> of_int (round_half_even (q / pow2 e)) * pow2 e"
      by simp
    moreover from False have "pow2 1024 \<le> pow2 e"
      by (intro pow2_mono) simp
    ultimately show ?thesis
      by (simp only: two_to_1024_pow2)
  qed
  then have r: "(two_to_1024 \<le> of_int (round_half_even (q / pow2 e)) * pow2 e) = True"
    by simp
  have "round_double q =
      (if two_to_1024 \<le> of_int (round_half_even (q / pow2 e)) * pow2 e then Inf (0 < q)
       else Fin (if q < 0 then - (of_int (round_half_even (q / pow2 e)) * pow2 e)
                 else of_int (round_half_even (q / pow2 e)) * pow2 e))"
    by (simp only: round_double_def Let_def q(3,4) if_False e_def)
  also have "\<dots> = Inf True"
    using q(2) by (simp only: r if_True)
  finally show ?thesis .
qed

lemma parseFloat_1e309: "parseFloat ''1e309'' = Inf True"
proof -
  have "parseFloat ''1e309'' = round_double (10 ^ 309)"
    by (simp add: parseFloat_def is_ws_def is_digit_def exponent_part_def digits_val_def
        digit_val_def pow10_def Let_def)
  moreover have "two_to_1024 \<le> 10 ^ 309"
    by (simp add: two_to_1024_def)
  ultimately show ?thesis
    by (simp only: round_double_overflow)
qed

section \<open>Known values\<close>

text \<open>
  The model on known values: the double of 0.1, the sum of 0.1 and 0.2 as JavaScript
  prints it, a tie above \<open>2\<^sup>5\<^sup>3\<close> going to the even neighbour, and texts that are
  a number only in part or not at all.
\<close>

lemma parseFloat_examples:
  "parseFloat ''0.1'' = Fin (3602879701896397 / 36028797018963968)"
  "jsadd (parseFloat ''0.1'') (parseFloat ''0.2'') = parseFloat ''0.30000000000000004''"
  "jsadd (parseFloat ''0.1'') (parseFloat ''0.2'') \<noteq> parseFloat ''0.3''"
  "parseFloat ''9007199254740993'' = Fin 9007199254740992"
  "parseFloat ''12.5kg'' = Fin (25 / 2)"
  "parseFloat ''abc'' = NaN"
  by code_simp+

section \<open>Missing and non-numeric sales fields\<close>

lemma jsadd_zero [simp]: "jsadd x (Fin 0) = x"
  by (cases x) simp_all

lemma parseFloat_zero: "parseFloat ''0'' = Fin 0"
  by code_simp

lemma salesNum_falsy: "\<not> truthy f \<Longrightarrow> salesNum f = Fin 0"
  by (cases f) (simp_all add: salesNum_def parseFloat_zero)

lemma salesNum_defaulted:
  "salesNum (if truthy f then f else Some ''0'') = salesNum f"
  by (cases f) (simp_all add: salesNum_def)

lemma row_key_zero_missing: "row_key (zero_missing r) = row_key r"
  by (simp add: row_key_def zero_missing_def split: option.split)

lemma add_to_bucket_zero_missing: "add_to_bucket b (zero_missing r) = add_to_bucket b r"
  by (simp add: add_to_bucket_def zero_missing_def salesNum_defaulted)

lemma monthly_step_zero_missing: "monthly_step agg (zero_missing r) = monthly_step agg r"
  by (simp add: monthly_step_def row_key_zero_missing add_to_bucket_zero_missing
      split: sum.split)

lemma monthly_loop_zero_missing:
  "monthly_loop agg (map zero_missing rows) = monthly_loop agg rows"
  by (induction rows arbitrary: agg) (simp_all add: monthly_step_zero_missing split: sum.split)

lemma monthlyData_zero_missing:
  "monthlyData cmp (map zero_missing rows) = monthlyData cmp rows"
  by (simp add: monthlyData_def monthly_sorted_def monthly_loop_zero_missing)

lemma type_step_zero_missing: "type_step agg (zero_missing r) = type_step agg r"
  by (simp add: type_step_def zero_missing_def salesNum_defaulted)

lemma type_loop_zero_missing:
  "foldl type_step agg (map zero_missing rows) = foldl type_step agg rows"
  by (induction rows arbitrary: agg) (simp_all add: type_step_zero_missing)

lemma typeData_zero_missing: "typeData (map zero_missing rows) = typeData rows"
  by (simp add: typeData_def type_loop_zero_missing)

lemma retail_total_zero_missing:
  "foldl (\<lambda>t row. jsadd t (salesNum (RETAIL_SALES row))) t0 (map zero_missing rows)
   = foldl (\<lambda>t row. jsadd t (salesNum (RETAIL_SALES row))) t0 rows"
  by (induction rows arbitrary: t0) (simp_all add: zero_missing_def salesNum_defaulted)

lemma warehouse_total_zero_missing:
  "foldl (\<lambda>t row. jsadd t (salesNum (WAREHOUSE_SALES row))) t0 (map zero_missing rows)
   = foldl (\<lambda>t row. jsadd t (salesNum (WAREHOUSE_SALES row))) t0 rows"
  by (induction rows arbitrary: t0) (simp_all add: zero_missing_def salesNum_defaulted)

lemma stats_zero_missing: "stats (map zero_missing rows) = stats rows"
  by (simp add: stats_def retail_total_zero_missing warehouse_total_zero_missing)

text \<open>
  C3, as the spec states it, fails: a retained row whose RETAIL SALES is the text
  \<^verbatim>\<open>abc\<close> turns the retail total of its month, the total of its item type and
  the summary's retail and grand totals into \<open>NaN\<close>, although the other row of the
  list sold 10 and 5.
\<close>

theorem non_numeric_sales_counterexample:
  "filteredData no_selection
     (cleanData [mk_row ''2020'' ''1'' ''BEER'' ''A'' ''10'' ''5'',
                 mk_row ''2020'' ''1'' ''BEER'' ''A'' ''abc'' ''0''])
     = [mk_row ''2020'' ''1'' ''BEER'' ''A'' ''10'' ''5'',
        mk_row ''2020'' ''1'' ''BEER'' ''A'' ''abc'' ''0'']
   \<and> stats [mk_row ''2020'' ''1'' ''BEER'' ''A'' ''10'' ''5'',
            mk_row ''2020'' ''1'' ''BEER'' ''A'' ''abc'' ''0'']
     = \<lparr>totalRecords = 2, totalRetail = NaN, totalWarehouse = Fin 5, totalSales = NaN\<rparr>
   \<and> monthlyData code_unit_compare
        [mk_row ''2020'' ''1'' ''BEER'' ''A'' ''10'' ''5'',
         mk_row ''2020'' ''1'' ''BEER'' ''A'' ''abc'' ''0'']
     = Inr \<lparr>m_labels = [''Jan 2020''], m_retail = [NaN], m_warehouse = [Fin 5]\<rparr>
   \<and> typeData [mk_row ''2020'' ''1'' ''BEER'' ''A'' ''10'' ''5'',
               mk_row ''2020'' ''1'' ''BEER'' ''A'' ''abc'' ''0'']
     = \<lparr>t_labels = [''BEER''], t_values = [NaN]\<rparr>"
  by code_simp

text \<open>
  C3, amended. A RETAIL SALES or WAREHOUSE SALES field that is missing or empty counts as
  the number 0, and adding it leaves every total as it was: the monthly, the category and
  the summary aggregate of a filtered list are those of the list in which each missing or
  empty sales field is the text \<^verbatim>\<open>0\<close>. No error arises from such a field.
\<close>

theorem missing_sales_contribute_zero:
  assumes "filtered = filteredData sel (cleanData results_data)"
  shows "(\<forall>r\<in>set filtered.
            (\<not> truthy (RETAIL_SALES r) \<longrightarrow>
               salesNum (RETAIL_SALES r) = Fin 0 \<and> (\<forall>t. jsadd t (salesNum (RETAIL_SALES r)) = t))
          \<and> (\<not> truthy (WAREHOUSE_SALES r) \<longrightarrow>
               salesNum (WAREHOUSE_SALES r) = Fin 0 \<and>
               (\<forall>t. jsadd t (salesNum (WAREHOUSE_SALES r)) = t)))
     \<and> monthlyData localeCompare (map zero_missing filtered) = monthlyData localeCompare filtered
     \<and> typeData (map zero_missing filtered) = typeData filtered
     \<and> stats (map zero_missing filtered) = stats filtered"
  by (simp add: salesNum_falsy monthlyData_zero_missing typeData_zero_missing stats_zero_missing)

theorem missing_sales_contribute_zero_witness:
  "stats [mk_row ''2020'' ''1'' ''BEER'' ''A'' ''10'' [],
          \<lparr>YEAR = Some ''2020'', MONTH = Some ''2'', ITEM_TYPE = Some ''WINE'',
           SUPPLIER = Some ''B'', RETAIL_SALES = None, WAREHOUSE_SALES = Some ''7''\<rparr>]
   = \<lparr>totalRecords = 2, totalRetail = Fin 10, totalWarehouse = Fin 7, totalSales = Fin 17\<rparr>
   \<and> salesNum (WAREHOUSE_SALES (mk_row ''2020'' ''1'' ''BEER'' ''A'' ''10'' [])) = Fin 0"
proof -
  have f: "[mk_row ''2020'' ''1'' ''BEER'' ''A'' ''10'' [],
          \<lparr>YEAR = Some ''2020'', MONTH = Some ''2'', ITEM_TYPE = Some ''WINE'',
           SUPPLIER = Some ''B'', RETAIL_SALES = None, WAREHOUSE_SALES = Some ''7''\<rparr>]
     = filteredData no_selection (cleanData
         [mk_row ''2020'' ''1'' ''BEER'' ''A'' ''10'' [],
          mk_row ''2020'' ''1'' ''SODA'' ''A'' ''10'' ''1'',
          \<lparr>YEAR = Some ''2020'', MONTH = Some ''2'', ITEM_TYPE = Some ''WINE'',
           SUPPLIER = Some ''B'', RETAIL_SALES = None, WAREHOUSE_SALES = Some ''7''\<rparr>])"
    by (simp add: filteredData_def keep_row_def no_selection_def cleanData_def mk_row_def
        ITEM_TYPES_def)
  note t = missing_sales_contribute_zero [OF f]
  have z: "map zero_missing [mk_row ''2020'' ''1'' ''BEER'' ''A'' ''10'' [],
          \<lparr>YEAR = Some ''2020'', MONTH = Some ''2'', ITEM_TYPE = Some ''WINE'',
           SUPPLIER = Some ''B'', RETAIL_SALES = None, WAREHOUSE_SALES = Some ''7''\<rparr>]
     = [mk_row ''2020'' ''1'' ''BEER'' ''A'' ''10'' ''0'',
        mk_row ''2020'' ''2'' ''WINE'' ''B'' ''0'' ''7'']"
    by (simp add: zero_missing_def mk_row_def)
  have e: "stats [mk_row ''2020'' ''1'' ''BEER'' ''A'' ''10'' ''0'',
        mk_row ''2020'' ''2'' ''WINE'' ''B'' ''0'' ''7'']
     = \<lparr>totalRecords = 2, totalRetail = Fin 10, totalWarehouse = Fin 7, totalSales = Fin 17\<rparr>"
    by code_simp
  have "stats [mk_row ''2020'' ''1'' ''BEER'' ''A'' ''10'' [],
          \<lparr>YEAR = Some ''2020'', MONTH = Some ''2'', ITEM_TYPE = Some ''WINE'',
           SUPPLIER = Some ''B'', RETAIL_SALES = None, WAREHOUSE_SALES = Some ''7''\<rparr>]
     = \<lparr>totalRecords = 2, totalRetail = Fin 10, totalWarehouse = Fin 7, totalSales = Fin 17\<rparr>"
    using t [THEN conjunct2, THEN conjunct2, THEN conjunct2] by (simp only: z e)
  moreover have "salesNum (WAREHOUSE_SALES (mk_row ''2020'' ''1'' ''BEER'' ''A'' ''10'' [])) = Fin 0"
    using t [THEN conjunct1, rule_format, of "mk_row ''2020'' ''1'' ''BEER'' ''A'' ''10'' []"]
    by (simp add: mk_row_def)
  ultimately show ?thesis
    by (rule conjI)
qed

section \<open>The category totals against the summary\<close>

lemma whole_of_nat [simp]: "whole (Fin (of_nat n)) = n"
  by (simp add: whole_def)

lemma total_whole:
  assumes "\<forall>r\<in>set rows. salesNum (f r) = Fin (of_nat (A r))"
    and "t0 + sum_list (map A rows) < 2 ^ 53"
  shows "foldl (\<lambda>t row. jsadd t (salesNum (f row))) (Fin (of_nat t0)) rows
           = Fin (of_nat (t0 + sum_list (map A rows)))"
  using assms
proof (induction rows arbitrary: t0)
  case Nil
  show ?case by simp
next
  case (Cons r rows)
  from Cons.prems(1) have a: "salesNum (f r) = Fin (of_nat (A r))"
    by simp
  from Cons.prems(2) have "t0 + A r < 2 ^ 53"
    by simp
  then have step: "jsadd (Fin (of_nat t0)) (Fin (of_nat (A r))) = Fin (of_nat (t0 + A r))"
    by (rule jsadd_of_nat)
  from Cons.prems have "\<forall>r\<in>set rows. salesNum (f r) = Fin (of_nat (A r))"
    and "(t0 + A r) + sum_list (map A rows) < 2 ^ 53"
    by (simp_all add: add.assoc)
  from Cons.IH [OF this] show ?case
    by (simp only: foldl_Cons a step list.map sum_list.Cons add.assoc)
qed

lemma jssum_whole:
  assumes "\<forall>x\<in>set xs. \<exists>n. x = Fin (of_nat n)"
    and "t0 + sum_list (map whole xs) < 2 ^ 53"
  shows "foldl jsadd (Fin (of_nat t0)) xs = Fin (of_nat (t0 + sum_list (map whole xs)))"
  using assms
proof (induction xs arbitrary: t0)
  case Nil
  show ?case by simp
next
  case (Cons x xs)
  from Cons.prems(1) obtain n where x: "x = Fin (of_nat n)"
    by auto
  from Cons.prems(2) have "t0 + n < 2 ^ 53"
    by (simp add: x)
  then have step: "jsadd (Fin (of_nat t0)) (Fin (of_nat n)) = Fin (of_nat (t0 + n))"
    by (rule jsadd_of_nat)
  from Cons.prems have "\<forall>x\<in>set xs. \<exists>n. x = Fin (of_nat n)"
    and "(t0 + n) + sum_list (map whole xs) < 2 ^ 53"
    by (simp_all add: x add.assoc)
  from Cons.IH [OF this] show ?case
    by (simp only: x foldl_Cons step whole_of_nat list.map sum_list.Cons add.assoc)
qed

lemma sum_update_nat:
  "sum_list (map (\<lambda>p. f (snd p)) (AList.update k v al))
       + (case map_of al k of None \<Rightarrow> 0 | Some x \<Rightarrow> f x)
     = sum_list (map (\<lambda>p. f (snd p)) al) + (f v :: nat)"
  by (induction al) auto

lemma map_of_le_sum:
  "map_of al k = Some x \<Longrightarrow> (f x :: nat) \<le> sum_list (map (\<lambda>p. f (snd p)) al)"
  by (induction al) (auto split: if_splits intro: trans_le_add2)

lemma values_update: "snd ` set (AList.update k v al) \<subseteq> insert v (snd ` set al)"
  by (induction al) auto

lemma map_of_whole:
  "\<forall>x\<in>snd ` set al. \<exists>n. x = Fin (of_nat n) \<Longrightarrow> map_of al k = Some x \<Longrightarrow>
     \<exists>n. x = Fin (of_nat n)"
  by (auto dest!: map_of_SomeD intro: rev_image_eqI)

lemma jsadd_zero_left: "jsadd (Fin 0) (Fin y) = Fin y"
  by simp

lemma type_step_whole:
  assumes fin: "\<forall>x\<in>snd ` set agg. \<exists>n. x = Fin (of_nat n)"
    and a: "salesNum (RETAIL_SALES r) = Fin (of_nat a)"
    and b: "salesNum (WAREHOUSE_SALES r) = Fin (of_nat b)"
    and bound: "sum_list (map (\<lambda>p. whole (snd p)) agg) + (a + b) < 2 ^ 53"
  shows "(\<forall>x\<in>snd ` set (type_step agg r). \<exists>n. x = Fin (of_nat n))
     \<and> sum_list (map (\<lambda>p. whole (snd p)) (type_step agg r))
         = sum_list (map (\<lambda>p. whole (snd p)) agg) + (a + b)"
proof -
  from bound have "a + b < 2 ^ 53"
    by simp
  then have ab: "jsadd (Fin (of_nat a)) (Fin (of_nat b)) = Fin (of_nat (a + b))"
    by (rule jsadd_of_nat)
  show ?thesis
  proof (cases "map_of agg (template_str (ITEM_TYPE r))")
    case None
    have step: "type_step agg r
        = AList.update (template_str (ITEM_TYPE r)) (Fin (of_nat (a + b))) agg"
      unfolding type_step_def Let_def a b ab None
      by (simp only: falsy_entry_def option.case if_True jsadd_zero_left)
    from fin values_update [of "template_str (ITEM_TYPE r)" "Fin (of_nat (a + b))" agg]
    have f2: "\<forall>x\<in>snd ` set (type_step agg r). \<exists>n. x = Fin (of_nat n)"
      unfolding step by blast
    from sum_update_nat [of whole "template_str (ITEM_TYPE r)" "Fin (of_nat (a + b))" agg]
    have "sum_list (map (\<lambda>p. whole (snd p)) (type_step agg r))
         = sum_list (map (\<lambda>p. whole (snd p)) agg) + (a + b)"
      by (simp only: step None option.case whole_of_nat Nat.add_0_right)
    with f2 show ?thesis
      by (rule conjI)
  next
    case (Some x)
    from map_of_whole [OF fin Some] obtain n where x: "x = Fin (of_nat n)"
      by blast
    from map_of_le_sum [OF Some, of whole] have "n \<le> sum_list (map (\<lambda>p. whole (snd p)) agg)"
      by (simp add: x)
    with bound have "n + (a + b) < 2 ^ 53"
      by simp
    then have add: "jsadd (Fin (of_nat n)) (Fin (of_nat (a + b))) = Fin (of_nat (n + (a + b)))"
      by (rule jsadd_of_nat)
    have cur: "(if falsy_entry (Some (Fin (of_nat n))) then Fin 0
                else (case Some (Fin (of_nat n)) of None \<Rightarrow> Fin 0 | Some x \<Rightarrow> x))
               = Fin (of_nat n)"
      by (auto simp: falsy_entry_def)
    have step: "type_step agg r
        = AList.update (template_str (ITEM_TYPE r)) (Fin (of_nat (n + (a + b)))) agg"
      unfolding type_step_def Let_def a b ab Some x cur add ..
    from fin values_update [of "template_str (ITEM_TYPE r)" "Fin (of_nat (n + (a + b)))" agg]
    have f2: "\<forall>x\<in>snd ` set (type_step agg r). \<exists>n. x = Fin (of_nat n)"
      unfolding step by blast
    from sum_update_nat [of whole "template_str (ITEM_TYPE r)" "Fin (of_nat (n + (a + b)))" agg]
    have "sum_list (map (\<lambda>p. whole (snd p)) (type_step agg r))
         = sum_list (map (\<lambda>p. whole (snd p)) agg) + (a + b)"
      by (simp only: step Some x option.case whole_of_nat)
    with f2 show ?thesis
      by (rule conjI)
  qed
qed

lemma type_loop_whole:
  assumes "\<forall>x\<in>snd ` set agg. \<exists>n. x = Fin (of_nat n)"
    and "\<forall>r\<in>set rows. salesNum (RETAIL_SALES r) = Fin (of_nat (A r))
                       \<and> salesNum (WAREHOUSE_SALES r) = Fin (of_nat (B r))"
    and "sum_list (map (\<lambda>p. whole (snd p)) agg) + sum_list (map (\<lambda>r. A r + B r) rows) < 2 ^ 53"
  shows "(\<forall>x\<in>snd ` set (foldl type_step agg rows). \<exists>n. x = Fin (of_nat n))
     \<and> sum_list (map (\<lambda>p. whole (snd p)) (foldl type_step agg rows))
         = sum_list (map (\<lambda>p. whole (snd p)) agg) + sum_list (map (\<lambda>r. A r + B r) rows)"
  using assms
proof (induction rows arbitrary: agg)
  case Nil
  then show ?case by simp
next
  case (Cons r rows)
  from Cons.prems(2) have a: "salesNum (RETAIL_SALES r) = Fin (of_nat (A r))"
    and b: "salesNum (WAREHOUSE_SALES r) = Fin (of_nat (B r))"
    by simp_all
  from Cons.prems(3) have "sum_list (map (\<lambda>p. whole (snd p)) agg) + (A r + B r) < 2 ^ 53"
    by simp
  note s = type_step_whole [OF Cons.prems(1) a b this]
  from Cons.prems(2) have rest: "\<forall>r\<in>set rows. salesNum (RETAIL_SALES r) = Fin (of_nat (A r))
                       \<and> salesNum (WAREHOUSE_SALES r) = Fin (of_nat (B r))"
    by simp
  from Cons.prems(3) s [THEN conjunct2]
  have "sum_list (map (\<lambda>p. whole (snd p)) (type_step agg r))
          + sum_list (map (\<lambda>r. A r + B r) rows) < 2 ^ 53"
    by simp
  from Cons.IH [OF s [THEN conjunct1] rest this] s [THEN conjunct2] show ?case
    by simp
qed

lemma category_sum_is_total:
  assumes whole: "\<forall>r\<in>set rows. salesNum (RETAIL_SALES r) = Fin (of_nat (A r))
                       \<and> salesNum (WAREHOUSE_SALES r) = Fin (of_nat (B r))"
    and bound: "sum_list (map (\<lambda>r. A r + B r) rows) < 2 ^ 53"
  shows "jssum (t_values (typeData rows)) = Fin (of_nat (sum_list (map (\<lambda>r. A r + B r) rows)))"
    and "totalSales (stats rows) = Fin (of_nat (sum_list (map (\<lambda>r. A r + B r) rows)))"
proof -
  have split: "sum_list (map (\<lambda>r. A r + B r) rows) = sum_list (map A rows) + sum_list (map B rows)"
    by (induction rows) simp_all
  have e: "\<forall>x\<in>snd ` set ([] :: (string \<times> jsnum) list). \<exists>n. x = Fin (of_nat n)"
    by simp
  from bound have "sum_list (map (\<lambda>p. whole (snd p)) ([] :: (string \<times> jsnum) list))
      + sum_list (map (\<lambda>r. A r + B r) rows) < 2 ^ 53"
    by simp
  note l = type_loop_whole [OF e whole this]
  from l [THEN conjunct1] have v: "\<forall>x\<in>set (map snd (foldl type_step [] rows)). \<exists>n. x = Fin (of_nat n)"
    by simp
  from l [THEN conjunct2] have s: "sum_list (map whole (map snd (foldl type_step [] rows)))
      = sum_list (map (\<lambda>r. A r + B r) rows)"
    by (simp add: comp_def)
  from bound s have "0 + sum_list (map whole (map snd (foldl type_step [] rows))) < 2 ^ 53"
    by simp
  from jssum_whole [OF v this] s
  show "jssum (t_values (typeData rows)) = Fin (of_nat (sum_list (map (\<lambda>r. A r + B r) rows)))"
    by (simp add: jssum_def typeData_def Let_def)
  from whole have r: "\<forall>r\<in>set rows. salesNum (RETAIL_SALES r) = Fin (of_nat (A r))"
    and w: "\<forall>r\<in>set rows. salesNum (WAREHOUSE_SALES r) = Fin (of_nat (B r))"
    by simp_all
  from bound have br: "0 + sum_list (map A rows) < 2 ^ 53" and bw: "0 + sum_list (map B rows) < 2 ^ 53"
    and bt: "sum_list (map A rows) + sum_list (map B rows) < 2 ^ 53"
    by (simp_all add: split)
  have tr: "foldl (\<lambda>t row. jsadd t (salesNum (RETAIL_SALES row))) (Fin 0) rows
      = Fin (of_nat (sum_list (map A rows)))"
    using total_whole [OF r br] by simp
  have tw: "foldl (\<lambda>t row. jsadd t (salesNum (WAREHOUSE_SALES row))) (Fin 0) rows
      = Fin (of_nat (sum_list (map B rows)))"
    using total_whole [OF w bw] by simp
  show "totalSales (stats rows) = Fin (of_nat (sum_list (map (\<lambda>r. A r + B r) rows)))"
    by (simp only: stats_def Let_def tr tw summary.simps jsadd_of_nat [OF bt] split)
qed

lemma is_whole_eq: "is_whole x \<Longrightarrow> x = Fin (of_nat (whole x))"
  by (cases x) (auto simp: is_whole_def whole_def)

text \<open>
  The category aggregate and the summary add the same fields in different orders: the
  aggregate adds the two fields of a row first and the sums of the rows per item type, the
  summary adds each field down the list and the two totals at the end. Each addition rounds
  to a double, so the two results differ by rounding already for two rows with the fields
  0.1, 0.1 and 0.2, 0.3: the category values 0.2 and 0.5 sum to 0.7, while the summary adds
  0.30000000000000004 and 0.4 to 0.7000000000000001.
\<close>

lemma parseFloat_decimals:
  "parseFloat ''0.7'' = Fin (3152519739159347 / 4503599627370496)"
  "parseFloat ''0.7000000000000001'' = Fin (6305039478318695 / 9007199254740992)"
  by code_simp+

text \<open>
  C9, as the spec states it, fails: both rows below are retained by the loader and the
  filter, the values of the category aggregate sum to the double 0.7 and the total sales of
  the summary is the next double, 0.7000000000000001.
\<close>

theorem category_sum_counterexample:
  "filteredData no_selection
     (cleanData [mk_row ''2020'' ''1'' ''BEER'' ''A'' ''0.1'' ''0.1'',
                 mk_row ''2020'' ''1'' ''WINE'' ''A'' ''0.2'' ''0.3''])
     = [mk_row ''2020'' ''1'' ''BEER'' ''A'' ''0.1'' ''0.1'',
        mk_row ''2020'' ''1'' ''WINE'' ''A'' ''0.2'' ''0.3'']
   \<and> jssum (t_values (typeData [mk_row ''2020'' ''1'' ''BEER'' ''A'' ''0.1'' ''0.1'',
                                mk_row ''2020'' ''1'' ''WINE'' ''A'' ''0.2'' ''0.3'']))
       = Fin (3152519739159347 / 4503599627370496)
   \<and> totalSales (stats [mk_row ''2020'' ''1'' ''BEER'' ''A'' ''0.1'' ''0.1'',
                       mk_row ''2020'' ''1'' ''WINE'' ''A'' ''0.2'' ''0.3''])
       = Fin (6305039478318695 / 9007199254740992)"
  by code_simp

text \<open>
  C9, amended. For every filtered list in which each RETAIL SALES and WAREHOUSE SALES
  field is missing, empty or parses to a non-negative whole number, and in which these
  numbers add up to less than \<open>2\<^sup>5\<^sup>3\<close> over the list, the sum of the values of the
  category aggregate equals the total sales of the summary, and both are that sum.
\<close>

theorem category_sum_equals_total_sales:
  assumes "filtered = filteredData sel (cleanData results_data)"
    and "\<forall>r\<in>set filtered. is_whole (salesNum (RETAIL_SALES r))
                           \<and> is_whole (salesNum (WAREHOUSE_SALES r))"
    and "sum_list (map (\<lambda>r. whole (salesNum (RETAIL_SALES r))
                             + whole (salesNum (WAREHOUSE_SALES r))) filtered) < 2 ^ 53"
  shows "jssum (t_values (typeData filtered)) = totalSales (stats filtered)
     \<and> totalSales (stats filtered)
         = Fin (of_nat (sum_list (map (\<lambda>r. whole (salesNum (RETAIL_SALES r))
                                            + whole (salesNum (WAREHOUSE_SALES r))) filtered)))"
proof -
  from assms(2)
  have w: "\<forall>r\<in>set filtered.
        salesNum (RETAIL_SALES r) = Fin (of_nat (whole (salesNum (RETAIL_SALES r))))
      \<and> salesNum (WAREHOUSE_SALES r) = Fin (of_nat (whole (salesNum (WAREHOUSE_SALES r))))"
    by (blast intro: is_whole_eq)
  note t = category_sum_is_total [OF w assms(3)]
  from t show ?thesis
    by (simp only: simp_thms)
qed

theorem category_sum_equals_total_sales_witness:
  "jssum (t_values (typeData
     [mk_row ''2020'' ''1'' ''BEER'' ''A'' ''10'' ''5'',
      mk_row ''2020'' ''1'' ''WINE'' ''A'' ''20'' ''0'',
      mk_row ''2020'' ''2'' ''BEER'' ''B'' [] ''3'']))
   = totalSales (stats
     [mk_row ''2020'' ''1'' ''BEER'' ''A'' ''10'' ''5'',
      mk_row ''2020'' ''1'' ''WINE'' ''A'' ''20'' ''0'',
      mk_row ''2020'' ''2'' ''BEER'' ''B'' [] ''3''])
   \<and> totalSales (stats
     [mk_row ''2020'' ''1'' ''BEER'' ''A'' ''10'' ''5'',
      mk_row ''2020'' ''1'' ''WINE'' ''A'' ''20'' ''0'',
      mk_row ''2020'' ''2'' ''BEER'' ''B'' [] ''3'']) = Fin 38"
proof -
  have f: "[mk_row ''2020'' ''1'' ''BEER'' ''A'' ''10'' ''5'',
      mk_row ''2020'' ''1'' ''WINE'' ''A'' ''20'' ''0'',
      mk_row ''2020'' ''2'' ''BEER'' ''B'' [] ''3'']
    = filteredData no_selection (cleanData
       [mk_row ''2020'' ''1'' ''BEER'' ''A'' ''10'' ''5'',
        mk_row ''2020'' ''1'' ''WINE'' ''A'' ''20'' ''0'',
        mk_row ''2020'' ''1'' ''SODA'' ''A'' ''1'' ''1'',
        mk_row ''2020'' ''2'' ''BEER'' ''B'' [] ''3''])"
    by (simp add: filteredData_def keep_row_def no_selection_def cleanData_def mk_row_def
        ITEM_TYPES_def)
  have s: "salesNum (Some ''10'') = Fin 10" "salesNum (Some ''5'') = Fin 5"
      "salesNum (Some ''20'') = Fin 20" "salesNum (Some ''0'') = Fin 0"
      "salesNum (Some []) = Fin 0" "salesNum (Some ''3'') = Fin 3"
    by code_simp+
  have n: "\<forall>r\<in>set [mk_row ''2020'' ''1'' ''BEER'' ''A'' ''10'' ''5'',
      mk_row ''2020'' ''1'' ''WINE'' ''A'' ''20'' ''0'',
      mk_row ''2020'' ''2'' ''BEER'' ''B'' [] ''3''].
      is_whole (salesNum (RETAIL_SALES r)) \<and> is_whole (salesNum (WAREHOUSE_SALES r))"
    by (simp add: mk_row_def s is_whole_def)
  have b: "sum_list (map (\<lambda>r. whole (salesNum (RETAIL_SALES r))
                             + whole (salesNum (WAREHOUSE_SALES r)))
     [mk_row ''2020'' ''1'' ''BEER'' ''A'' ''10'' ''5'',
      mk_row ''2020'' ''1'' ''WINE'' ''A'' ''20'' ''0'',
      mk_row ''2020'' ''2'' ''BEER'' ''B'' [] ''3'']) = 38"
    by (simp add: mk_row_def s whole_def)
  then have "sum_list (map (\<lambda>r. whole (salesNum (RETAIL_SALES r))
                             + whole (salesNum (WAREHOUSE_SALES r)))
     [mk_row ''2020'' ''1'' ''BEER'' ''A'' ''10'' ''5'',
      mk_row ''2020'' ''1'' ''WINE'' ''A'' ''20'' ''0'',
      mk_row ''2020'' ''2'' ''BEER'' ''B'' [] ''3'']) < 2 ^ 53"
    by simp
  from category_sum_equals_total_sales [OF f n this] show ?thesis
    by (simp only: b of_nat_numeral)
qed

section \<open>The monthly aggregate, bucket by bucket\<close>

subsection \<open>Sorting the entries\<close>

lemma insert_entry_insort:
  "\<forall>b\<in>set bs. (cmp (fst a) (fst b) \<le> 0) = (fst a \<le> fst b) \<Longrightarrow>
     insert_entry cmp a bs = insort_key fst a bs"
  by (induction bs) simp_all

lemma sort_entries_sort_key:
  "\<forall>a\<in>set xs. \<forall>b\<in>set xs. (cmp (fst a) (fst b) \<le> 0) = (fst a \<le> fst b) \<Longrightarrow>
     sort_entries cmp xs = sort_key fst xs"
proof (induction xs)
  case Nil
  show ?case by (simp add: sort_entries_def)
next
  case (Cons x xs)
  then have "sort_entries cmp xs = sort_key fst xs"
    by simp
  moreover from Cons.prems
  have "\<forall>b\<in>set (sort_key fst xs). (cmp (fst x) (fst b) \<le> 0) = (fst x \<le> fst b)"
    by simp
  ultimately show ?case
    by (simp add: sort_entries_def insert_entry_insort)
qed

lemma distinct_keys_sort_key:
  "distinct (map fst (sort_key fst xs)) = distinct (map fst xs)"
  by (induction xs) (simp_all add: distinct_insort_key)

lemma set_insert_entry: "set (insert_entry cmp a bs) = insert a (set bs)"
  by (induction bs) auto

lemma set_sort_entries: "set (sort_entries cmp xs) = set xs"
  by (induction xs) (simp_all add: sort_entries_def set_insert_entry)

lemma distinct_insert_entry:
  "distinct (map fst (insert_entry cmp a bs))
     = (fst a \<notin> fst ` set bs \<and> distinct (map fst bs))"
  by (induction bs) (auto simp: set_insert_entry)

lemma distinct_sort_entries:
  "distinct (map fst (sort_entries cmp xs)) = distinct (map fst xs)"
  by (induction xs) (simp_all add: sort_entries_def distinct_insert_entry set_insert_entry
      del: insert_entry.simps, simp_all add: sort_entries_def [symmetric] set_sort_entries)

subsection \<open>The loop\<close>

lemma foldl_add_to_bucket:
  "foldl add_to_bucket b rs =
     \<lparr>retail = foldl jsadd (retail b) (map (\<lambda>r. salesNum (RETAIL_SALES r)) rs),
      warehouse = foldl jsadd (warehouse b) (map (\<lambda>r. salesNum (WAREHOUSE_SALES r)) rs),
      count = count b + length rs\<rparr>"
  by (induction rs arbitrary: b) (simp_all add: add_to_bucket_def)

lemma row_key_present:
  "MONTH r = Some m \<Longrightarrow> row_key r = Inr (template_str (YEAR r) @ ''-'' @ padStart2 m)"
  by (simp add: row_key_def)

lemma monthly_loop_buckets:
  assumes "\<forall>r\<in>set rows. MONTH r \<noteq> None"
  shows "\<exists>agg'. monthly_loop agg rows = Inr agg'
     \<and> (distinct (map fst agg) \<longrightarrow> distinct (map fst agg'))
     \<and> (\<forall>k. map_of agg' k =
          (if map_of agg k = None \<and> filter (\<lambda>r. row_key r = Inr k) rows = [] then None
           else Some (foldl add_to_bucket
                  (case map_of agg k of
                     None \<Rightarrow> \<lparr>retail = Fin 0, warehouse = Fin 0, count = 0\<rparr>
                   | Some b \<Rightarrow> b)
                  (filter (\<lambda>r. row_key r = Inr k) rows))))"
  using assms
proof (induction rows arbitrary: agg)
  case Nil
  show ?case
    by (auto split: option.split)
next
  case (Cons r rows)
  from Cons.prems obtain m where m: "MONTH r = Some m"
    by auto
  define key where "key = template_str (YEAR r) @ ''-'' @ padStart2 m"
  define agg1 where "agg1 = AList.update key
      (add_to_bucket (case map_of agg key of
                        None \<Rightarrow> \<lparr>retail = Fin 0, warehouse = Fin 0, count = 0\<rparr>
                      | Some b \<Rightarrow> b) r) agg"
  have rk: "row_key r = Inr key"
    by (simp add: row_key_present [OF m] key_def)
  have step: "monthly_step agg r = Inr agg1"
    by (simp add: monthly_step_def rk agg1_def Let_def)
  from Cons.prems have "\<forall>r\<in>set rows. MONTH r \<noteq> None"
    by simp
  from Cons.IH [OF this, of agg1] obtain agg' where
    loop: "monthly_loop agg1 rows = Inr agg'"
    and dist: "distinct (map fst agg1) \<longrightarrow> distinct (map fst agg')"
    and look: "\<And>k. map_of agg' k =
          (if map_of agg1 k = None \<and> filter (\<lambda>r. row_key r = Inr k) rows = [] then None
           else Some (foldl add_to_bucket
                  (case map_of agg1 k of
                     None \<Rightarrow> \<lparr>retail = Fin 0, warehouse = Fin 0, count = 0\<rparr>
                   | Some b \<Rightarrow> b)
                  (filter (\<lambda>r. row_key r = Inr k) rows)))"
    by blast
  have m1: "map_of agg1 = (map_of agg)(key \<mapsto>
      add_to_bucket (case map_of agg key of
                        None \<Rightarrow> \<lparr>retail = Fin 0, warehouse = Fin 0, count = 0\<rparr>
                      | Some b \<Rightarrow> b) r)"
    by (simp add: agg1_def update_conv')
  have "monthly_loop agg (r # rows) = Inr agg'"
    by (simp add: step loop)
  moreover have "distinct (map fst agg) \<longrightarrow> distinct (map fst agg')"
    using dist by (simp add: agg1_def distinct_update)
  moreover have "map_of agg' k =
          (if map_of agg k = None \<and> filter (\<lambda>r. row_key r = Inr k) (r # rows) = [] then None
           else Some (foldl add_to_bucket
                  (case map_of agg k of
                     None \<Rightarrow> \<lparr>retail = Fin 0, warehouse = Fin 0, count = 0\<rparr>
                   | Some b \<Rightarrow> b)
                  (filter (\<lambda>r. row_key r = Inr k) (r # rows))))" for k
  proof (cases "k = key")
    case True
    then show ?thesis
      by (simp add: look m1 rk)
  next
    case False
    then show ?thesis
      by (simp add: look m1 rk)
  qed
  ultimately show ?case
    by blast
qed

lemma monthly_loop_result:
  assumes "\<forall>r\<in>set rows. MONTH r \<noteq> None"
  shows "\<exists>agg. monthly_loop [] rows = Inr agg \<and> distinct (map fst agg)
     \<and> fst ` set agg = {k. \<exists>r\<in>set rows. row_key r = Inr k}
     \<and> (\<forall>(k, b)\<in>set agg.
          b = \<lparr>retail = jssum (map (\<lambda>r. salesNum (RETAIL_SALES r))
                                 (filter (\<lambda>r. row_key r = Inr k) rows)),
               warehouse = jssum (map (\<lambda>r. salesNum (WAREHOUSE_SALES r))
                                    (filter (\<lambda>r. row_key r = Inr k) rows)),
               count = length (filter (\<lambda>r. row_key r = Inr k) rows)\<rparr>)"
proof -
  from monthly_loop_buckets [OF assms, of "[]"] obtain agg where
    loop: "monthly_loop [] rows = Inr agg" and dist: "distinct (map fst agg)"
    and look: "\<And>k. map_of agg k =
          (if filter (\<lambda>r. row_key r = Inr k) rows = [] then None
           else Some (foldl add_to_bucket \<lparr>retail = Fin 0, warehouse = Fin 0, count = 0\<rparr>
                  (filter (\<lambda>r. row_key r = Inr k) rows)))"
    by auto
  have keys: "fst ` set agg = {k. \<exists>r\<in>set rows. row_key r = Inr k}"
  proof -
    have "k \<in> fst ` set agg \<longleftrightarrow> (\<exists>r\<in>set rows. row_key r = Inr k)" for k
    proof -
      have "k \<in> fst ` set agg \<longleftrightarrow> map_of agg k \<noteq> None"
        by (simp add: map_of_eq_None_iff)
      also have "\<dots> \<longleftrightarrow> filter (\<lambda>r. row_key r = Inr k) rows \<noteq> []"
        by (simp add: look)
      also have "\<dots> \<longleftrightarrow> (\<exists>r\<in>set rows. row_key r = Inr k)"
        by (simp add: filter_empty_conv)
      finally show ?thesis .
    qed
    then show ?thesis
      by blast
  qed
  have "b = \<lparr>retail = jssum (map (\<lambda>r. salesNum (RETAIL_SALES r))
                                 (filter (\<lambda>r. row_key r = Inr k) rows)),
               warehouse = jssum (map (\<lambda>r. salesNum (WAREHOUSE_SALES r))
                                    (filter (\<lambda>r. row_key r = Inr k) rows)),
               count = length (filter (\<lambda>r. row_key r = Inr k) rows)\<rparr>"
    if "(k, b) \<in> set agg" for k b
  proof -
    from that dist have "map_of agg k = Some b"
      by simp
    then have "b = foldl add_to_bucket \<lparr>retail = Fin 0, warehouse = Fin 0, count = 0\<rparr>
                  (filter (\<lambda>r. row_key r = Inr k) rows)"
      by (simp add: look split: if_splits)
    then show ?thesis
      by (simp add: foldl_add_to_bucket jssum_def)
  qed
  with loop dist keys show ?thesis
    by blast
qed

subsection \<open>The label of a key\<close>

lemma split_on_head: "\<exists>ps. split_on sep s = takeWhile (\<lambda>c. c \<noteq> sep) s # ps"
  by (induction s) auto

lemma split_on_append:
  "sep \<notin> set y \<Longrightarrow> split_on sep (y @ sep # rest) = y # split_on sep rest"
  by (induction y) auto

lemma label_of_key_split:
  assumes "CHR ''-'' \<notin> set y"
  shows "label_of_key (y @ ''-'' @ p)
     = template_str (months_at (parseInt (takeWhile (\<lambda>c. c \<noteq> CHR ''-'') p))) @ '' '' @ y"
proof -
  obtain ps where ps: "split_on (CHR ''-'') p = takeWhile (\<lambda>c. c \<noteq> CHR ''-'') p # ps"
    using split_on_head by blast
  have "split_on (CHR ''-'') (y @ ''-'' @ p) = y # takeWhile (\<lambda>c. c \<noteq> CHR ''-'') p # ps"
    using split_on_append [OF assms, of p] by (simp add: ps)
  then show ?thesis
    by (simp add: label_of_key_def template_str_def)
qed

lemma dropWhile_takeWhile:
  "(\<And>c. Q c \<Longrightarrow> P c) \<Longrightarrow> dropWhile Q (takeWhile P s) = takeWhile P (dropWhile Q s)"
  by (induction s) auto

lemma takeWhile_takeWhile:
  "(\<And>c. Q c \<Longrightarrow> P c) \<Longrightarrow> takeWhile Q (takeWhile P s) = takeWhile Q s"
  by (induction s) auto

lemma ws_not_hyphen: "is_ws c \<Longrightarrow> c \<noteq> CHR ''-''"
  by (auto simp: is_ws_def)

lemma digit_not_hyphen: "is_digit c \<Longrightarrow> c \<noteq> CHR ''-''"
  by (auto simp: is_digit_def)

lemma hex_digit_not_hyphen: "is_hex_digit c \<Longrightarrow> c \<noteq> CHR ''-''"
  by (auto simp: is_hex_digit_def)

lemma strip_sign_takeWhile:
  "\<not> fst (strip_sign t) \<Longrightarrow>
     strip_sign (takeWhile (\<lambda>c. c \<noteq> CHR ''-'') t)
       = (False, takeWhile (\<lambda>c. c \<noteq> CHR ''-'') (snd (strip_sign t)))"
  by (cases t) (auto split: if_splits)

lemma hex_prefix_takeWhile:
  "(take 2 (takeWhile (\<lambda>c. c \<noteq> CHR ''-'') u) = [CHR ''0'', x]) = (take 2 u = [CHR ''0'', x])"
  if "x \<noteq> CHR ''-''"
proof (cases u)
  case Nil
  then show ?thesis by simp
next
  case (Cons a v)
  then show ?thesis
    using that by (cases v) auto
qed

lemma drop2_takeWhile:
  "take 2 u = [CHR ''0'', x] \<Longrightarrow> x \<noteq> CHR ''-'' \<Longrightarrow>
     drop 2 (takeWhile (\<lambda>c. c \<noteq> CHR ''-'') u) = takeWhile (\<lambda>c. c \<noteq> CHR ''-'') (drop 2 u)"
proof (cases u)
  case Nil
  then show ?thesis by simp
next
  case (Cons a v)
  assume "take 2 u = [CHR ''0'', x]" "x \<noteq> CHR ''-''"
  with Cons show ?thesis
    by (cases v) auto
qed

lemma parseInt_unfold:
  "parseInt s =
     (let p = strip_sign (dropWhile is_ws s);
          hex = (take 2 (snd p) = ''0x'' \<or> take 2 (snd p) = ''0X'');
          ds = (if hex then takeWhile is_hex_digit (drop 2 (snd p))
                else takeWhile is_digit (snd p));
          n = digits_val (if hex then 16 else 10) ds
      in if ds = [] then None else Some (if fst p then - n else n))"
  by (simp add: parseInt_def Let_def split_def)

lemma digits_val_nonneg: "0 \<le> digits_val radix ds"
proof -
  have "0 \<le> n \<Longrightarrow> 0 \<le> foldl (\<lambda>n c. int radix * n + int (digit_val c)) n ds" for n
    by (induction ds arbitrary: n) simp_all
  then show ?thesis
    by (simp add: digits_val_def)
qed

lemma parseInt_positive_sign:
  assumes "parseInt s = Some n" and "0 < n"
  shows "\<not> fst (strip_sign (dropWhile is_ws s))"
proof
  assume neg: "fst (strip_sign (dropWhile is_ws s))"
  from assms(1) have "n \<le> 0"
    using digits_val_nonneg [of 10] digits_val_nonneg [of 16]
    by (auto simp: parseInt_unfold Let_def neg split: if_splits)
  with assms(2) show False
    by simp
qed

lemma parseInt_takeWhile:
  assumes "parseInt s = Some n" and "0 < n"
  shows "parseInt (takeWhile (\<lambda>c. c \<noteq> CHR ''-'') s) = Some n"
proof -
  let ?P = "\<lambda>c. c \<noteq> CHR ''-''"
  let ?u = "snd (strip_sign (dropWhile is_ws s))"
  have pos: "\<not> fst (strip_sign (dropWhile is_ws s))"
    using assms by (rule parseInt_positive_sign)
  have sign: "strip_sign (dropWhile is_ws (takeWhile ?P s)) = (False, takeWhile ?P ?u)"
    by (simp add: dropWhile_takeWhile [of is_ws ?P, OF ws_not_hyphen]
        strip_sign_takeWhile [OF pos])
  have hexl: "(take 2 (takeWhile ?P ?u) = ''0x'') = (take 2 ?u = ''0x'')"
    by (rule hex_prefix_takeWhile) simp
  have hexu: "(take 2 (takeWhile ?P ?u) = ''0X'') = (take 2 ?u = ''0X'')"
    by (rule hex_prefix_takeWhile) simp
  have dec: "takeWhile is_digit (takeWhile ?P ?u) = takeWhile is_digit ?u"
    by (rule takeWhile_takeWhile) (rule digit_not_hyphen)
  have hexd: "takeWhile is_hex_digit (drop 2 (takeWhile ?P ?u)) = takeWhile is_hex_digit (drop 2 ?u)"
    if "take 2 ?u = ''0x'' \<or> take 2 ?u = ''0X''"
  proof -
    from that have "drop 2 (takeWhile ?P ?u) = takeWhile ?P (drop 2 ?u)"
      by (auto intro: drop2_takeWhile)
    then show ?thesis
      by (simp add: takeWhile_takeWhile [of is_hex_digit ?P, OF hex_digit_not_hyphen])
  qed
  have "parseInt (takeWhile ?P s) = parseInt s"
  proof (cases "take 2 ?u = ''0x'' \<or> take 2 ?u = ''0X''")
    case True
    then show ?thesis
      unfolding parseInt_unfold [of "takeWhile ?P s"] parseInt_unfold [of s] sign
      by (simp add: Let_def hexl hexu hexd [OF True] pos)
  next
    case False
    then show ?thesis
      unfolding parseInt_unfold [of "takeWhile ?P s"] parseInt_unfold [of s] sign
      by (simp add: Let_def hexl hexu dec pos)
  qed
  with assms(1) show ?thesis
    by simp
qed

lemma parseInt_single:
  assumes "parseInt [c] = Some n"
  shows "is_digit c \<and> n = int (digit_val c)"
proof -
  have nws: "\<not> is_ws c"
    using assms by (auto simp: parseInt_unfold Let_def)
  have nsign: "c \<noteq> CHR ''-''" "c \<noteq> CHR ''+''"
    using assms nws by (auto simp: parseInt_unfold Let_def)
  from assms nws nsign show ?thesis
    by (auto simp: parseInt_unfold Let_def digits_val_def split: if_splits)
qed

lemma parseInt_zero_digit:
  assumes "is_digit c"
  shows "parseInt [CHR ''0'', c] = Some (int (digit_val c))"
proof -
  from assms have c: "c \<noteq> CHR ''x''" "c \<noteq> CHR ''X''"
    by (auto simp: is_digit_def)
  have z: "\<not> is_ws (CHR ''0'')" "is_digit (CHR ''0'')" "digit_val (CHR ''0'') = 0"
    by (simp_all add: is_ws_def is_digit_def digit_val_def)
  show ?thesis
    using assms c z by (simp add: parseInt_unfold Let_def digits_val_def)
qed

lemma parseInt_padStart2:
  assumes "parseInt m = Some n" and "0 < n"
  shows "parseInt (takeWhile (\<lambda>c. c \<noteq> CHR ''-'') (padStart2 m)) = Some n"
proof -
  consider "m = []" | c where "m = [c]" | "2 \<le> length m"
    by (cases m; cases "tl m") auto
  then show ?thesis
  proof cases
    case 1
    with assms(1) show ?thesis
      by (simp add: parseInt_unfold Let_def)
  next
    case 2
    with assms(1) have d: "is_digit c" and n: "n = int (digit_val c)"
      using parseInt_single by blast+
    from d have "c \<noteq> CHR ''-''"
      by (rule digit_not_hyphen)
    then show ?thesis
      by (simp add: 2 padStart2_def parseInt_zero_digit [OF d] n)
  next
    case 3
    then have "padStart2 m = m"
      by (simp add: padStart2_def)
    with assms show ?thesis
      by (simp add: parseInt_takeWhile)
  qed
qed

lemma label_of_row_key:
  assumes "CHR ''-'' \<notin> set y" and "parseInt m = Some n" and "1 \<le> n" and "n \<le> 12"
  shows "label_of_key (y @ ''-'' @ padStart2 m) = MONTHS ! nat (n - 1) @ '' '' @ y"
proof -
  from assms(2,3) have "parseInt (takeWhile (\<lambda>c. c \<noteq> CHR ''-'') (padStart2 m)) = Some n"
    by (intro parseInt_padStart2) simp_all
  with assms(3,4) show ?thesis
    unfolding label_of_key_split [OF assms(1)]
    by (simp add: months_at_def template_str_def)
qed

subsection \<open>The aggregate of a filtered list\<close>

lemma filtered_row_present:
  "r \<in> set (filteredData sel (cleanData results_data)) \<Longrightarrow>
     (\<exists>y. YEAR r = Some y) \<and> (\<exists>m. MONTH r = Some m)"
  by (auto simp: filteredData_def cleanData_def truthy_iff)

lemma code_unit_compare_le: "(code_unit_compare a b \<le> 0) = (a \<le> b)"
  by (auto simp: code_unit_compare_def)

text \<open>
  Grouping, sums and counts, whatever order \<^verbatim>\<open>localeCompare\<close> gives. For every
  filtered list, every row gets the key \<^verbatim>\<open>YEAR-MM\<close>, the month padded with zeros
  on the left to two characters, and the aggregation keeps one bucket per key, with the
  sum of the retail sales, the sum of the warehouse sales and the number of the rows of
  that key.
\<close>

lemma monthlyData_groups:
  assumes filtered: "filtered = filteredData sel (cleanData results_data)"
  shows "\<exists>sorted_entries.
       monthly_sorted localeCompare filtered = Inr sorted_entries
     \<and> (\<forall>r\<in>set filtered. \<exists>y m. YEAR r = Some y \<and> MONTH r = Some m
           \<and> row_key r = Inr (y @ ''-'' @ replicate (2 - length m) (CHR ''0'') @ m))
     \<and> set (map fst sorted_entries) = {k. \<exists>r\<in>set filtered. row_key r = Inr k}
     \<and> distinct (map fst sorted_entries)
     \<and> (\<forall>(k, b)\<in>set sorted_entries.
          b = \<lparr>retail = jssum (map (\<lambda>r. salesNum (RETAIL_SALES r))
                                 (filter (\<lambda>r. row_key r = Inr k) filtered)),
               warehouse = jssum (map (\<lambda>r. salesNum (WAREHOUSE_SALES r))
                                    (filter (\<lambda>r. row_key r = Inr k) filtered)),
               count = length (filter (\<lambda>r. row_key r = Inr k) filtered)\<rparr>)
     \<and> monthlyData localeCompare filtered
         = Inr \<lparr>m_labels = map (\<lambda>(k, b). label_of_key k) sorted_entries,
                m_retail = map (\<lambda>(k, b). retail b) sorted_entries,
                m_warehouse = map (\<lambda>(k, b). warehouse b) sorted_entries\<rparr>"
proof -
  have present: "(\<exists>y. YEAR r = Some y) \<and> (\<exists>m. MONTH r = Some m)" if "r \<in> set filtered" for r
    using that filtered_row_present unfolding filtered by blast
  then have months: "\<forall>r\<in>set filtered. MONTH r \<noteq> None"
    by auto
  from monthly_loop_result [OF months] obtain agg where
    loop: "monthly_loop [] filtered = Inr agg" and dist: "distinct (map fst agg)"
    and keys: "fst ` set agg = {k. \<exists>r\<in>set filtered. row_key r = Inr k}"
    and buckets: "\<forall>(k, b)\<in>set agg.
          b = \<lparr>retail = jssum (map (\<lambda>r. salesNum (RETAIL_SALES r))
                                 (filter (\<lambda>r. row_key r = Inr k) filtered)),
               warehouse = jssum (map (\<lambda>r. salesNum (WAREHOUSE_SALES r))
                                    (filter (\<lambda>r. row_key r = Inr k) filtered)),
               count = length (filter (\<lambda>r. row_key r = Inr k) filtered)\<rparr>"
    by blast
  let ?s = "sort_entries localeCompare agg"
  have ms: "monthly_sorted localeCompare filtered = Inr ?s"
    by (simp add: monthly_sorted_def loop)
  have shape: "\<forall>r\<in>set filtered. \<exists>y m. YEAR r = Some y \<and> MONTH r = Some m
           \<and> row_key r = Inr (y @ ''-'' @ replicate (2 - length m) (CHR ''0'') @ m)"
  proof
    fix r assume "r \<in> set filtered"
    from present [OF this] obtain y m where "YEAR r = Some y" "MONTH r = Some m"
      by blast
    then show "\<exists>y m. YEAR r = Some y \<and> MONTH r = Some m
           \<and> row_key r = Inr (y @ ''-'' @ replicate (2 - length m) (CHR ''0'') @ m)"
      by (simp add: row_key_def template_str_def padStart2_def)
  qed
  have k: "set (map fst ?s) = {k. \<exists>r\<in>set filtered. row_key r = Inr k}"
    using keys by (simp add: set_sort_entries)
  have d: "distinct (map fst ?s)"
    using dist by (simp add: distinct_sort_entries)
  have b: "\<forall>(k, b)\<in>set ?s.
          b = \<lparr>retail = jssum (map (\<lambda>r. salesNum (RETAIL_SALES r))
                                 (filter (\<lambda>r. row_key r = Inr k) filtered)),
               warehouse = jssum (map (\<lambda>r. salesNum (WAREHOUSE_SALES r))
                                    (filter (\<lambda>r. row_key r = Inr k) filtered)),
               count = length (filter (\<lambda>r. row_key r = Inr k) filtered)\<rparr>"
    using buckets by (simp only: set_sort_entries)
  have md: "monthlyData localeCompare filtered
         = Inr \<lparr>m_labels = map (\<lambda>(k, b). label_of_key k) ?s,
                m_retail = map (\<lambda>(k, b). retail b) ?s,
                m_warehouse = map (\<lambda>(k, b). warehouse b) ?s\<rparr>"
    by (simp add: monthlyData_def ms)
  show ?thesis
    by (rule exI [of _ ?s]) (intro conjI ms shape k d b md)
qed

text \<open>
  The order. When \<^verbatim>\<open>localeCompare\<close> orders the keys of the list as the
  comparison by code unit does (as it does for keys of digits and \<^verbatim>\<open>-\<close>), the
  buckets come out in ascending lexicographic order of their keys.
\<close>

lemma monthlyData_sorted:
  assumes filtered: "filtered = filteredData sel (cleanData results_data)"
    and collation:
      "\<forall>a\<in>{k. \<exists>r\<in>set filtered. row_key r = Inr k}.
       \<forall>b\<in>{k. \<exists>r\<in>set filtered. row_key r = Inr k}. (localeCompare a b \<le> 0) = (a \<le> b)"
    and sorted_entries: "monthly_sorted localeCompare filtered = Inr sorted_entries"
  shows "sorted (map fst sorted_entries)"
proof -
  from filtered have "\<forall>r\<in>set filtered. MONTH r \<noteq> None"
    using filtered_row_present by fastforce
  from monthly_loop_result [OF this] obtain agg where
    loop: "monthly_loop [] filtered = Inr agg"
    and keys: "fst ` set agg = {k. \<exists>r\<in>set filtered. row_key r = Inr k}"
    by blast
  have "\<forall>a\<in>set agg. \<forall>b\<in>set agg. (localeCompare (fst a) (fst b) \<le> 0) = (fst a \<le> fst b)"
  proof (intro ballI)
    fix a b assume "a \<in> set agg" "b \<in> set agg"
    then have "fst a \<in> fst ` set agg" "fst b \<in> fst ` set agg"
      by simp_all
    with collation show "(localeCompare (fst a) (fst b) \<le> 0) = (fst a \<le> fst b)"
      unfolding keys by blast
  qed
  then have "sort_entries localeCompare agg = sort_key fst agg"
    by (rule sort_entries_sort_key)
  with sorted_entries loop have "sorted_entries = sort_key fst agg"
    by (simp add: monthly_sorted_def)
  then show ?thesis
    by simp
qed

text \<open>
  The label. The bucket of a row whose YEAR contains no \<^verbatim>\<open>-\<close> and whose month
  index is \<open>n\<close> from 1 to 12 is labelled with the \<open>n\<close>-th name of \<open>MONTHS\<close>
  (1 gives Jan, 12 gives Dec), a blank and the year.
\<close>

lemma monthlyData_label:
  assumes "r \<in> set (filteredData sel (cleanData results_data))"
    and "YEAR r = Some y" and "CHR ''-'' \<notin> set y"
    and "month_index r = Some n" and "1 \<le> n" and "n \<le> 12"
  shows "\<exists>k. row_key r = Inr k \<and> label_of_key k = MONTHS ! nat (n - 1) @ '' '' @ y"
proof -
  from filtered_row_present [OF assms(1)] obtain m where m: "MONTH r = Some m"
    by blast
  with assms(4) have p: "parseInt m = Some n"
    by (simp add: month_index_def)
  from assms(2) m have "row_key r = Inr (y @ ''-'' @ padStart2 m)"
    by (simp add: row_key_def template_str_def)
  moreover from assms(3,5,6) p
  have "label_of_key (y @ ''-'' @ padStart2 m) = MONTHS ! nat (n - 1) @ '' '' @ y"
    by (intro label_of_row_key) simp_all
  ultimately show ?thesis
    by blast
qed

lemma monthlyData_example:
  "monthlyData code_unit_compare
     [mk_row ''2020'' ''1'' ''BEER'' ''A'' ''10'' ''5'',
      mk_row ''2019'' ''12'' ''WINE'' ''B'' ''3'' [],
      mk_row ''2020'' ''1'' ''WINE'' ''A'' ''20'' ''0'']
   = Inr \<lparr>m_labels = [''Dec 2019'', ''Jan 2020''], m_retail = [Fin 3, Fin 30],
          m_warehouse = [Fin 0, Fin 5]\<rparr>"
  by code_simp

text \<open>
  C4 does not hold of the code, on the label. The key is put together with a
  \<^verbatim>\<open>-\<close> between the year and the month (App.jsx 177) and taken apart again at
  its first two \<^verbatim>\<open>-\<close> (App.jsx 189). The row below, of YEAR
  \<^verbatim>\<open>2020-21\<close> and MONTH \<^verbatim>\<open>1\<close>, is retained by the loader and the
  filter; its month index is 1 and the table (App.jsx 575) prints \<^verbatim>\<open>Jan\<close> for it;
  its bucket has the key \<^verbatim>\<open>2020-21-01\<close>, and the chart labels that bucket
  \<^verbatim>\<open>undefined 2020\<close>.
\<close>

theorem monthlyData_label_undefined:
  "filteredData no_selection (cleanData [mk_row ''2020-21'' ''1'' ''BEER'' ''A'' ''10'' ''5''])
     = [mk_row ''2020-21'' ''1'' ''BEER'' ''A'' ''10'' ''5'']
   \<and> month_index (mk_row ''2020-21'' ''1'' ''BEER'' ''A'' ''10'' ''5'') = Some 1
   \<and> months_at (month_index (mk_row ''2020-21'' ''1'' ''BEER'' ''A'' ''10'' ''5'')) = Some ''Jan''
   \<and> monthly_sorted code_unit_compare [mk_row ''2020-21'' ''1'' ''BEER'' ''A'' ''10'' ''5'']
     = Inr [(''2020-21-01'', \<lparr>retail = Fin 10, warehouse = Fin 5, count = 1\<rparr>)]
   \<and> monthlyData code_unit_compare [mk_row ''2020-21'' ''1'' ''BEER'' ''A'' ''10'' ''5'']
     = Inr \<lparr>m_labels = [''undefined 2020''], m_retail = [Fin 10], m_warehouse = [Fin 5]\<rparr>"
  by code_simp

end
